theory Spec2Isabelle
  imports Main
begin

section \<open>Strings\<close>

text \<open>
  Go strings are byte sequences; they are modelled as \<open>string\<close> (a list of 8-bit
  characters).  The helpers below are the functions of Go's \<open>strings\<close> package that the
  matcher and the executor call.
\<close>

text \<open>\<open>strings.Trim(s, cutset)\<close>: drop every leading and trailing byte that is in the cutset.\<close>

definition Trim :: "string \<Rightarrow> string \<Rightarrow> string" where
  "Trim s cutset =
     rev (dropWhile (\<lambda>c. c \<in> set cutset) (rev (dropWhile (\<lambda>c. c \<in> set cutset) s)))"

text \<open>\<open>fmt.Sprintf(`"%s"`, s)\<close>: the string between double quotes.\<close>

definition quote :: "string \<Rightarrow> string" where
  "quote s = CHR 0x22 # s @ [CHR 0x22]"

fun HasPrefix :: "string \<Rightarrow> string \<Rightarrow> bool" where
  "HasPrefix s [] = True"
| "HasPrefix [] (p # ps) = False"
| "HasPrefix (c # cs) (p # ps) = (c = p \<and> HasPrefix cs ps)"

text \<open>\<open>strings.Contains(s, substr)\<close>.\<close>

fun Contains :: "string \<Rightarrow> string \<Rightarrow> bool" where
  "Contains [] sub = (sub = [])"
| "Contains (c # cs) sub = (HasPrefix (c # cs) sub \<or> Contains cs sub)"

text \<open>
  \<open>strings.SplitN(s, sep, 2)\<close> for a one-byte separator: the whole string when the
  separator does not occur, otherwise the text before and the text after its first
  occurrence.
\<close>

definition SplitN2 :: "string \<Rightarrow> char \<Rightarrow> string list" where
  "SplitN2 s sep =
     (if sep \<in> set s
      then [takeWhile (\<lambda>c. c \<noteq> sep) s, tl (dropWhile (\<lambda>c. c \<noteq> sep) s)]
      else [s])"

text \<open>ASCII case conversion of one byte (bytes outside \<open>a-z\<close> / \<open>A-Z\<close> are kept).\<close>

definition lowerLetters :: string where
  "lowerLetters = ''abcdefghijklmnopqrstuvwxyz''"

definition upperLetters :: string where
  "upperLetters = ''ABCDEFGHIJKLMNOPQRSTUVWXYZ''"

definition upperChar :: "char \<Rightarrow> char" where
  "upperChar c = (case map_of (zip lowerLetters upperLetters) c of Some u \<Rightarrow> u | None \<Rightarrow> c)"

definition lowerChar :: "char \<Rightarrow> char" where
  "lowerChar c = (case map_of (zip upperLetters lowerLetters) c of Some l \<Rightarrow> l | None \<Rightarrow> c)"

definition ToUpper :: "string \<Rightarrow> string" where
  "ToUpper s = map upperChar s"

definition ToLower :: "string \<Rightarrow> string" where
  "ToLower s = map lowerChar s"

section \<open>The target-language tree\<close>

text \<open>
  The Go syntax tree comes from the \<open>go/ast\<close> package, which is not part of the
  repository; the matcher reaches into it by reflection only (type name, field by name)
  and walks it with \<open>ast.Inspect\<close>.  The tree is therefore modelled generically: a node
  has an identity \<open>nid\<close> (its address: two pointers are the same pointer iff the
  identities agree), the name of its struct type \<open>kind\<close>, and its struct fields
  \<open>flds\<close> in the order in which \<open>ast.Walk\<close> visits them.  The children of a node are
  the nodes in its fields; a field through which \<open>ast.Walk\<close> does not descend (such as the
  alias lists \<open>File.Imports\<close> and \<open>File.Comments\<close>) is outside the model.

  A field value, and every value the matcher passes around as \<open>any\<close>, is one of:
  \<^item> \<open>VNil\<close>: a nil pointer or nil interface (\<open>getField\<close> returns the untyped nil for both);
  \<^item> \<open>VNode n\<close>: a non-nil pointer to a node;
  \<^item> \<open>VSlice vs\<close>: a non-nil slice; \<open>VNilSlice\<close>: a nil slice (a non-nil \<open>any\<close>);
  \<^item> \<open>VString s\<close>: a string (\<open>Ident.Name\<close>, \<open>BasicLit.Value\<close>);
  \<^item> \<open>VTok t\<close>: a \<open>token.Token\<close> such as \<open>import\<close>;
  \<^item> \<open>VInt i\<close>: a position or another integer; \<open>VBool b\<close>: a boolean.
\<close>

datatype astnode = AstNode (nid: nat) (kind: string) (flds: "(string \<times> val) list")
and val =
    VNil
  | VNode astnode
  | VSlice "val list"
  | VNilSlice
  | VString string
  | VTok string
  | VInt int
  | VBool bool

text \<open>Reading a struct field of a node by its Go name; \<open>None\<close> when the struct has none.\<close>

definition FieldByName :: "astnode \<Rightarrow> string \<Rightarrow> val option" where
  "FieldByName n name = map_of (flds n) name"

text \<open>A string-typed struct field such as \<open>Ident.Name\<close>.\<close>

definition stringField :: "astnode \<Rightarrow> string \<Rightarrow> string" where
  "stringField n name = (case FieldByName n name of Some (VString s) \<Rightarrow> s | _ \<Rightarrow> [])"

text \<open>
  \<open>ast.Inspect(n, f)\<close> with a callback that returns true on every non-nil node: the nodes
  of the subtree in depth-first pre-order.  Nil children are skipped.
\<close>

fun Inspect :: "astnode \<Rightarrow> astnode list"
and InspectVal :: "val \<Rightarrow> astnode list"
and InspectVals :: "val list \<Rightarrow> astnode list"
and InspectFields :: "(string \<times> val) list \<Rightarrow> astnode list" where
  "Inspect (AstNode i k fs) = AstNode i k fs # InspectFields fs"
| "InspectVal (VNode n) = Inspect n"
| "InspectVal (VSlice vs) = InspectVals vs"
| "InspectVal VNil = []"
| "InspectVal VNilSlice = []"
| "InspectVal (VString s) = []"
| "InspectVal (VTok t) = []"
| "InspectVal (VInt j) = []"
| "InspectVal (VBool b) = []"
| "InspectVals [] = []"
| "InspectVals (v # vs) = InspectVal v @ InspectVals vs"
| "InspectFields [] = []"
| "InspectFields (f # fs) = InspectVal (snd f) @ InspectFields fs"

section \<open>The rule AST (package grammar)\<close>

text \<open>
  \<open>MatchValue\<close> is a sum in the grammar (\<open>Spread | Binding | Pattern | List | Exact | Wild\<close>):
  the parser sets exactly one alternative, except for the empty list pattern \<open>[]\<close>, which
  captures nothing and leaves every alternative unset (\<open>NoValue\<close>).
\<close>

datatype MatchValue =
    Spread string
  | Binding string
  | Pattern ASTPattern
  | MList "MatchValue list"
  | Exact string
  | Wild
  | NoValue
and ASTPattern = ASTPattern (PatNodeType: string) (PatFields: "FieldMatch list")
and FieldMatch = FieldMatch (FieldName: string) (FieldValue: MatchValue)

record MatchStmt =
  NodeType :: string
  In :: "string option"
  Fields :: "FieldMatch list"

record FromClause =
  Matchers :: "MatchStmt list"

record ContainsPred =
  ContainsBinding :: string
  ContainsPattern :: ASTPattern

record LenPred =
  LenBinding :: string
  LenOp :: string
  LenValue :: int

record MemberPred =
  MemberBinding :: string
  MemberValues :: "string list"

record PropertyPred =
  PropBinding :: string
  Property :: string

datatype Predicate =
    NotP Predicate
  | ContainsP ContainsPred
  | LenCheck LenPred
  | MemberCheck MemberPred
  | PropCheck PropertyPred

text \<open>
  Actions.  \<open>Action\<close> and \<open>PatchStmt\<close> are sums in the grammar (exactly one alternative
  is set); \<open>Expr\<close> likewise.  The optional parts of \<open>InsertClause\<close> and \<open>EmitClause\<close>
  stay options, since the grammar allows each to be absent.
\<close>

record BindingRef =
  RefName :: string
  RefField :: "string option"
  Transforms :: "string list"

datatype ASTBuildValue =
    ForLoop string BindingRef ASTBuild
  | BuildBinding BindingRef
  | Construct ASTBuild
  | BuildList "ASTBuildValue list"
  | BuildString string
  | BuildNumber int
and ASTBuild = ASTBuild (BuildNodeType: string) (BuildFields: "(string \<times> ASTBuildValue) list")

datatype Expr = ExprBinding BindingRef | ExprString string | ExprNumber int

record FieldPath =
  PathBinding :: string
  Segments :: "string list"

record SetStmt =
  Path :: FieldPath
  SetValue :: Expr

record RenameStmt =
  RenameBinding :: string
  NewName :: string

record RetypeStmt =
  RetypeBinding :: string
  NewType :: string

datatype PatchStmt =
    PIf ConditionalPatch
  | PSet SetStmt
  | PRename RenameStmt
  | PRetype RetypeStmt
and ConditionalPatch = ConditionalPatch (Condition: Predicate) (CondStmts: "PatchStmt list")

record PatchClause =
  PatchStmts :: "PatchStmt list"

record DeleteClause =
  DeleteStmts :: "FieldPath list"

record InsertPos =
  PosKind :: string
  PosBinding :: "string option"

record InsertClause =
  Mode :: string
  Position :: InsertPos
  ASTNode :: "ASTBuild option"
  Code :: "string option"

record EmitClause =
  Target :: string
  File :: string
  Package :: "string option"
  ASTBody :: "ASTBuild option"
  CodeBody :: "string option"
  Template :: "string option"

datatype Action =
    Patch PatchClause
  | Delete DeleteClause
  | Insert InsertClause
  | Emit EmitClause

record WhereClause =
  Predicates :: "Predicate list"

record LiftBlock =
  Name :: string
  From :: "FromClause option"
  Where :: "WhereClause list"
  Actions :: "Action list"

section \<open>The matcher (package matcher)\<close>

text \<open>
  \<open>Bindings\<close> is \<open>map[string]any\<close>: a key can be present with the value nil
  (\<open>Some VNil\<close>), which differs from an absent key (\<open>None\<close>).
\<close>

type_synonym Bindings = "string \<rightharpoonup> val"

record Match =
  Node :: astnode
  Bindings :: Bindings

definition nodeTypeMatches :: "astnode \<Rightarrow> string \<Rightarrow> bool" where
  "nodeTypeMatches n typeName = (kind n = typeName)"

definition fieldMap :: "(string \<times> string) list" where
  "fieldMap =
     [(''name'', ''Name''), (''type'', ''Type''), (''recv'', ''Recv''), (''body'', ''Body''),
      (''params'', ''Params''), (''results'', ''Results''), (''fields'', ''Fields''),
      (''list'', ''List''), (''fun'', ''Fun''), (''args'', ''Args''), (''x'', ''X''),
      (''sel'', ''Sel''), (''tok'', ''Tok''), (''specs'', ''Specs''), (''decls'', ''Decls''),
      (''names'', ''Names''), (''tag'', ''Tag''), (''value'', ''Value''),
      (''values'', ''Values''), (''elts'', ''Elts''), (''elt'', ''Elt''), (''key'', ''Key''),
      (''len'', ''Len''), (''lhs'', ''Lhs''), (''rhs'', ''Rhs''), (''cond'', ''Cond''),
      (''init'', ''Init''), (''post'', ''Post''), (''op'', ''Op'')]"

definition mapFieldName :: "string \<Rightarrow> string" where
  "mapFieldName name =
     (case map_of fieldMap name of
        Some mapped \<Rightarrow> mapped
      | None \<Rightarrow> (case name of [] \<Rightarrow> name | c # cs \<Rightarrow> ToUpper [c] @ cs))"

text \<open>
  \<open>getField\<close>: nil when the struct has no such field or the field is a nil pointer;
  a nil interface field also comes back as the untyped nil.
\<close>

definition getField :: "astnode \<Rightarrow> string \<Rightarrow> val" where
  "getField n name =
     (case FieldByName n (mapFieldName name) of None \<Rightarrow> VNil | Some f \<Rightarrow> f)"

definition matchExact :: "val \<Rightarrow> string \<Rightarrow> bool" where
  "matchExact v expected =
     (case v of
        VNode n \<Rightarrow> kind n = ''Ident'' \<and> stringField n ''Name'' = expected
      | VString s \<Rightarrow> s = expected
      | _ \<Rightarrow> False)"

definition toNode :: "val \<Rightarrow> astnode option" where
  "toNode v = (case v of VNode n \<Rightarrow> Some n | _ \<Rightarrow> None)"

text \<open>
  \<open>toSlice\<close>: a \<open>*ast.FieldList\<close> yields its \<open>List\<close> (nil when that is nil), a slice yields
  its elements (a nil slice yields an empty, non-nil result), anything else yields nil.
\<close>

definition toSlice :: "val \<Rightarrow> val list option" where
  "toSlice v =
     (case v of
        VNil \<Rightarrow> None
      | VNode n \<Rightarrow>
          (if kind n = ''FieldList''
           then (case FieldByName n ''List'' of Some (VSlice xs) \<Rightarrow> Some xs | _ \<Rightarrow> None)
           else None)
      | VSlice xs \<Rightarrow> Some xs
      | VNilSlice \<Rightarrow> Some []
      | _ \<Rightarrow> None)"

text \<open>
  Field unification.  The Go functions return a boolean and write into the bindings map
  they were given; every caller throws the map away when the result is false, so the
  model returns \<open>None\<close> for false and the updated map for true.
\<close>

fun matchValue :: "val \<Rightarrow> MatchValue \<Rightarrow> Bindings \<Rightarrow> Bindings option"
and matchASTPattern :: "val \<Rightarrow> ASTPattern \<Rightarrow> Bindings \<Rightarrow> Bindings option"
and matchItems :: "val list \<Rightarrow> MatchValue list \<Rightarrow> Bindings \<Rightarrow> Bindings option"
and matchFields :: "astnode \<Rightarrow> FieldMatch list \<Rightarrow> Bindings \<Rightarrow> Bindings option"
and matchField :: "astnode \<Rightarrow> FieldMatch \<Rightarrow> Bindings \<Rightarrow> Bindings option" where
  "matchValue v Wild b = Some b"
| "matchValue v (Binding name) b = Some (b(name \<mapsto> v))"
| "matchValue v (Spread name) b = Some (b(name \<mapsto> v))"
| "matchValue v (Exact s) b = (if matchExact v (Trim s [CHR 0x22]) then Some b else None)"
| "matchValue v (Pattern p) b = matchASTPattern v p b"
| "matchValue v (MList ps) b =
     (case toSlice v of
        None \<Rightarrow> None
      | Some items \<Rightarrow> if length ps \<noteq> length items then None else matchItems items ps b)"
| "matchValue v NoValue b = None"
| "matchASTPattern v (ASTPattern t fs) b =
     (case toNode v of
        None \<Rightarrow> None
      | Some n \<Rightarrow> if \<not> nodeTypeMatches n t then None else matchFields n fs b)"
| "matchItems items [] b = Some b"
| "matchItems [] (p # ps) b = None"
| "matchItems (i # items) (p # ps) b =
     (case matchValue i p b of None \<Rightarrow> None | Some b' \<Rightarrow> matchItems items ps b')"
| "matchFields n [] b = Some b"
| "matchFields n (f # fs) b =
     (case matchField n f b of None \<Rightarrow> None | Some b' \<Rightarrow> matchFields n fs b')"
| "matchField n (FieldMatch name mv) b =
     (let fieldValue = getField n name in
      if fieldValue = VNil \<and> mv \<noteq> Wild
      then (case mv of
              Binding x \<Rightarrow> Some (b(x \<mapsto> VNil))
            | Spread x \<Rightarrow> Some b
            | _ \<Rightarrow> None)
      else matchValue fieldValue mv b)"

text \<open>
  \<open>matchStmt\<close>: every node of the scope whose type matches is unified against the
  statement's fields, starting from a copy of the inherited bindings (or an empty map).
\<close>

definition matchStmt :: "MatchStmt \<Rightarrow> astnode \<Rightarrow> Bindings option \<Rightarrow> Match list" where
  "matchStmt stmt scope inherited =
     concat (map (\<lambda>n.
       if \<not> nodeTypeMatches n (NodeType stmt) then []
       else (case matchFields n (Fields stmt)
                    (case inherited of None \<Rightarrow> Map.empty | Some inh \<Rightarrow> inh) of
               None \<Rightarrow> []
             | Some bindings \<Rightarrow> [\<lparr>Node = n, Bindings = bindings\<rparr>]))
       (Inspect scope))"

text \<open>\<open>crossJoin\<close>: an empty side returns the other side; otherwise every pair is merged.\<close>

definition crossJoin :: "Match list \<Rightarrow> Match list \<Rightarrow> Match list" where
  "crossJoin a b =
     (if a = [] then b
      else if b = [] then a
      else concat (map (\<lambda>ma. map (\<lambda>mb.
             \<lparr>Node = Node ma, Bindings = Bindings ma ++ Bindings mb\<rparr>) b) a))"

text \<open>The body of the loop of \<open>MatchBlock\<close> over the matchers after the first.\<close>

definition MatchBlock_step :: "astnode \<Rightarrow> Match list \<Rightarrow> MatchStmt \<Rightarrow> Match list" where
  "MatchBlock_step file matches stmt =
     (case In stmt of
        None \<Rightarrow> crossJoin matches (matchStmt stmt file None)
      | Some bindingName \<Rightarrow>
          concat (map (\<lambda>match.
            (case Bindings match bindingName of
               Some (VNode scopeNode) \<Rightarrow> matchStmt stmt scopeNode (Some (Bindings match))
             | _ \<Rightarrow> [])) matches))"

text \<open>\<open>MatchBlock\<close> on the matcher's file; its error result is always nil.\<close>

definition MatchBlock :: "astnode \<Rightarrow> LiftBlock \<Rightarrow> Match list" where
  "MatchBlock file block =
     (case From block of
        None \<Rightarrow> []
      | Some frm \<Rightarrow>
          (case Matchers frm of
             [] \<Rightarrow> []
           | firstMatcher # rest \<Rightarrow>
               foldl (MatchBlock_step file) (matchStmt firstMatcher file None) rest))"

subsection \<open>Predicates\<close>

text \<open>
  \<open>evalContains\<close> stops the walk at the first node that matches; since a probe writes only
  into its own fresh bindings map, the result is whether some node of the walk matches.
\<close>

definition evalContains :: "ContainsPred \<Rightarrow> Bindings \<Rightarrow> bool" where
  "evalContains pred bindings =
     (case bindings (ContainsBinding pred) of
        None \<Rightarrow> False
      | Some scope \<Rightarrow>
          (case scope of
             VNode scopeNode \<Rightarrow>
               list_ex (\<lambda>n. nodeTypeMatches n (PatNodeType (ContainsPattern pred)) \<and>
                              matchFields n (PatFields (ContainsPattern pred)) Map.empty \<noteq> None)
                 (Inspect scopeNode)
           | _ \<Rightarrow> False))"

definition getLength :: "val \<Rightarrow> int" where
  "getLength v =
     (case v of
        VNode n \<Rightarrow>
          (if kind n = ''FieldList''
           then (case FieldByName n ''List'' of Some (VSlice xs) \<Rightarrow> int (length xs) | _ \<Rightarrow> 0)
           else 0)
      | VSlice xs \<Rightarrow> int (length xs)
      | _ \<Rightarrow> 0)"

definition evalLenCheck :: "LenPred \<Rightarrow> Bindings \<Rightarrow> bool" where
  "evalLenCheck pred bindings =
     (case bindings (LenBinding pred) of
        None \<Rightarrow> False
      | Some v \<Rightarrow>
          (let len = getLength v; op = LenOp pred in
           if op = ''>'' then len > LenValue pred
           else if op = ''>='' then len \<ge> LenValue pred
           else if op = ''<'' then len < LenValue pred
           else if op = ''<='' then len \<le> LenValue pred
           else if op = ''=='' then len = LenValue pred
           else if op = ''!='' then len \<noteq> LenValue pred
           else False))"

definition evalMemberCheck :: "MemberPred \<Rightarrow> Bindings \<Rightarrow> bool" where
  "evalMemberCheck pred bindings =
     (case bindings (MemberBinding pred) of
        None \<Rightarrow> False
      | Some v \<Rightarrow>
          (case v of
             VNode n \<Rightarrow>
               kind n = ''Ident'' \<and>
               list_ex (\<lambda>member. Trim member [CHR 0x22] = stringField n ''Name'') (MemberValues pred)
           | VString s \<Rightarrow> list_ex (\<lambda>member. Trim member [CHR 0x22] = s) (MemberValues pred)
           | _ \<Rightarrow> False))"

definition isUpperAZ :: "char \<Rightarrow> bool" where
  "isUpperAZ c = (c \<in> set upperLetters)"

definition isExported :: "val \<Rightarrow> bool" where
  "isExported v =
     (case v of
        VNode n \<Rightarrow>
          kind n = ''Ident'' \<and>
          (case stringField n ''Name'' of [] \<Rightarrow> False | c # cs \<Rightarrow> isUpperAZ c)
      | VString s \<Rightarrow> (case s of [] \<Rightarrow> False | c # cs \<Rightarrow> isUpperAZ c)
      | _ \<Rightarrow> False)"

definition isKind :: "val \<Rightarrow> string \<Rightarrow> bool" where
  "isKind v k = (case v of VNode n \<Rightarrow> kind n = k | _ \<Rightarrow> False)"

definition evalPropCheck :: "PropertyPred \<Rightarrow> Bindings \<Rightarrow> bool" where
  "evalPropCheck pred bindings =
     (case bindings (PropBinding pred) of
        None \<Rightarrow> False
      | Some v \<Rightarrow>
          (let p = Property pred in
           if p = ''exported'' then isExported v
           else if p = ''pointer'' then isKind v ''StarExpr''
           else if p = ''slice'' then isKind v ''ArrayType''
           else if p = ''map'' then isKind v ''MapType''
           else if p = ''error''
             then (case v of
                     VNode n \<Rightarrow> kind n = ''Ident'' \<and> stringField n ''Name'' = ''error''
                   | _ \<Rightarrow> False)
           else False))"

fun EvalPredicate :: "Predicate \<Rightarrow> Bindings \<Rightarrow> bool" where
  "EvalPredicate (NotP p) bindings = (\<not> EvalPredicate p bindings)"
| "EvalPredicate (ContainsP c) bindings = evalContains c bindings"
| "EvalPredicate (LenCheck l) bindings = evalLenCheck l bindings"
| "EvalPredicate (MemberCheck m) bindings = evalMemberCheck m bindings"
| "EvalPredicate (PropCheck p) bindings = evalPropCheck p bindings"

section \<open>The template engine (package executor)\<close>

text \<open>
  The parts of the Go runtime and of the Go frontend that the executor calls and that are
  not part of the repository are parameters of the model:
  \<^item> \<open>SprintfV v\<close> is \<open>fmt.Sprintf("%v", v)\<close>;
  \<^item> \<open>ParseFile src a\<close> is \<open>parser.ParseFile\<close> on the text \<open>src\<close>, allocating the nodes of
    the parsed file from address \<open>a\<close> on and returning the next free address, or \<open>None\<close>
    for a parse error;
  \<^item> \<open>FormatNode file\<close> is \<open>format.Node\<close>, \<open>None\<close> for a formatting error;
  \<^item> \<open>RangeKeys s\<close> is the order in which \<open>range\<close> enumerates a map with key set \<open>s\<close>
    (unspecified in Go).
\<close>

record goenv =
  SprintfV :: "val \<Rightarrow> string"
  ParseFile :: "string \<Rightarrow> nat \<Rightarrow> (astnode \<times> nat) option"
  FormatNode :: "astnode \<Rightarrow> string option"
  RangeKeys :: "string set \<Rightarrow> string list"

text \<open>
  The pattern \<open>\$\{(\w+)(?:\s*\|\s*(\w+))?\}\<close>.  \<open>\w\<close> is \<open>[0-9A-Za-z_]\<close> and \<open>\s\<close> is
  \<open>[\t\n\f\r ]\<close>.  No character class of the pattern overlaps with the character that
  follows it, so a match at a position is unique and every repetition is maximal.
\<close>

definition isWord :: "char \<Rightarrow> bool" where
  "isWord c = (c \<in> set (lowerLetters @ upperLetters @ ''0123456789_''))"

definition isSpace :: "char \<Rightarrow> bool" where
  "isSpace c = (c \<in> set [CHR 0x09, CHR 0x0A, CHR 0x0C, CHR 0x0D, CHR '' ''])"

text \<open>The optional group and the closing brace, \<open>\s*\|\s*(\w+)\}\<close>: the transform and the rest.\<close>

definition matchTransform :: "string \<Rightarrow> (string \<times> string) option" where
  "matchTransform t =
     (case dropWhile isSpace t of
        [] \<Rightarrow> None
      | p # t1 \<Rightarrow>
          if p = CHR ''|'' \<and> takeWhile isWord (dropWhile isSpace t1) \<noteq> []
          then (case dropWhile isWord (dropWhile isSpace t1) of
                  [] \<Rightarrow> None
                | q # rest \<Rightarrow>
                    if q = CHR ''}''
                    then Some (takeWhile isWord (dropWhile isSpace t1), rest)
                    else None)
          else None)"

text \<open>
  A match of the pattern at the start of the text: the name (group 1), the transform
  (group 2, empty when the optional group did not take part) and the text after the match.
\<close>

definition regexMatchAt :: "string \<Rightarrow> (string \<times> string \<times> string) option" where
  "regexMatchAt text =
     (case text of
        c1 # c2 # t1 \<Rightarrow>
          if c1 = CHR ''$'' \<and> c2 = CHR ''{'' \<and> takeWhile isWord t1 \<noteq> []
          then (case dropWhile isWord t1 of
                  [] \<Rightarrow> None
                | d # t2 \<Rightarrow>
                    if d = CHR ''}'' then Some (takeWhile isWord t1, [], t2)
                    else (case matchTransform (d # t2) of
                            None \<Rightarrow> None
                          | Some (transform, rest) \<Rightarrow> Some (takeWhile isWord t1, transform, rest)))
          else None
      | _ \<Rightarrow> None)"

definition bindingToString :: "goenv \<Rightarrow> val \<Rightarrow> string" where
  "bindingToString G v =
     (case v of
        VNode n \<Rightarrow>
          if kind n = ''Ident'' then stringField n ''Name''
          else if kind n = ''BasicLit'' then stringField n ''Value''
          else SprintfV G v
      | VString s \<Rightarrow> s
      | _ \<Rightarrow> SprintfV G v)"

text \<open>
  The transforms.  Case conversion is modelled on ASCII letters; an underscore is put
  before every upper-case ASCII letter that is not the first byte.
\<close>

definition toSnakeCase :: "string \<Rightarrow> string" where
  "toSnakeCase s =
     ToLower (case s of
                [] \<Rightarrow> []
              | c # cs \<Rightarrow> c # concat (map (\<lambda>r. if isUpperAZ r then [CHR ''_'', r] else [r]) cs))"

text \<open>\<open>strings.Split(s, sep)\<close> for a one-byte separator.\<close>

fun Split :: "string \<Rightarrow> char \<Rightarrow> string list" where
  "Split [] sep = [[]]"
| "Split (c # cs) sep =
     (if c = sep then [] # Split cs sep
      else (case Split cs sep of [] \<Rightarrow> [[c]] | p # ps \<Rightarrow> (c # p) # ps))"

definition toCamelCase :: "string \<Rightarrow> string" where
  "toCamelCase s =
     (case Split s (CHR ''_'') of
        [] \<Rightarrow> []
      | p # ps \<Rightarrow>
          concat (p # map (\<lambda>part. case part of [] \<Rightarrow> [] | c # cs \<Rightarrow> ToUpper [c] @ cs) ps))"

definition applyTransform :: "string \<Rightarrow> string \<Rightarrow> string" where
  "applyTransform s transform =
     (if transform = ''snake_case'' then toSnakeCase s
      else if transform = ''lower'' then ToLower s
      else if transform = ''upper'' then ToUpper s
      else if transform = ''camel_case'' then toCamelCase s
      else s)"

text \<open>The callback of \<open>ReplaceAllStringFunc\<close>: the replacement of one match.\<close>

definition replaceMatch :: "goenv \<Rightarrow> Bindings \<Rightarrow> string \<Rightarrow> string \<Rightarrow> string \<Rightarrow> string" where
  "replaceMatch G bindings match name transform =
     (case bindings name of
        None \<Rightarrow> match
      | Some v \<Rightarrow>
          (let str = bindingToString G v in
           if transform \<noteq> [] then applyTransform str transform else str))"

text \<open>
  \<open>interpolate\<close>: \<open>ReplaceAllStringFunc\<close> scans the text from left to right; at the
  leftmost match it emits the callback's result and goes on after the match.
\<close>

function interpolate :: "goenv \<Rightarrow> string \<Rightarrow> Bindings \<Rightarrow> string" where
  "interpolate G [] bindings = []"
| "interpolate G (c # cs) bindings =
     (case regexMatchAt (c # cs) of
        None \<Rightarrow> c # interpolate G cs bindings
      | Some (name, transform, rest) \<Rightarrow>
          replaceMatch G bindings (take (length (c # cs) - length rest) (c # cs)) name transform
          @ interpolate G rest bindings)"
  by pat_completeness auto
termination
proof (relation "measure (\<lambda>(G, text, bindings). length text)", goal_cases)
  case 1
  show ?case by simp
next
  case (2 G c cs bindings)
  show ?case by simp
next
  case (3 G c cs bindings m name tr transform rest)
  then have "regexMatchAt (c # cs) = Some (name, transform, rest)"
    by simp
  then obtain t1 d t2 where t: "c # cs = CHR ''$'' # CHR ''{'' # t1"
    and d: "dropWhile isWord t1 = d # t2"
    and r: "(d = CHR ''}'' \<and> rest = t2) \<or> matchTransform (d # t2) = Some (transform, rest)"
    by (auto simp: regexMatchAt_def split: list.splits if_splits option.splits)
  have "length rest \<le> length (d # t2)"
  proof (cases "d = CHR ''}'' \<and> rest = t2")
    case True
    then show ?thesis by simp
  next
    case False
    with r have "matchTransform (d # t2) = Some (transform, rest)"
      by simp
    then obtain u where a: "dropWhile isSpace (d # t2) = CHR ''|'' # u"
      and b: "dropWhile isWord (dropWhile isSpace u) = CHR ''}'' # rest"
      by (auto simp: matchTransform_def split: list.splits if_splits)
    have "length rest < length (dropWhile isWord (dropWhile isSpace u))"
      using b by simp
    also have "\<dots> \<le> length (dropWhile isSpace u)"
      by (rule length_dropWhile_le)
    also have "\<dots> \<le> length u"
      by (rule length_dropWhile_le)
    also have "\<dots> < length (dropWhile isSpace (d # t2))"
      using a by simp
    also have "\<dots> \<le> length (d # t2)"
      by (rule length_dropWhile_le)
    finally show ?thesis by simp
  qed
  also have "\<dots> \<le> length t1"
    using length_dropWhile_le [of isWord t1] d by simp
  finally show ?case
    using t by simp
qed

section \<open>The executor (package executor)\<close>

text \<open>
  Every error the executor returns is a value; \<open>NilDereference\<close> stands for the run-time
  panic of reading through a nil pointer.
\<close>

datatype error =
    InsertModeNotSupported string
  | InsertRequiresCode
  | InsertRequiresTarget
  | BindingNotFound string
  | NotABlockStmt string
  | ParseError
  | NoStatementsFound
  | ParseInsertCode error
  | PositionNotSupported string
  | NotAnIdentifier string
  | RetypeNotImplemented
  | NotAFieldList string
  | SetValueNotString
  | InvalidFieldSpec string
  | SetPathNotSupported string "string list"
  | DeleteNotImplemented
  | EmitASTNotImplemented
  | FormatError
  | InsertFailed error
  | PatchFailed error
  | DeleteFailed error
  | EmitFailed error
  | NilDereference

record Result =
  ModifiedSource :: string
  EmittedFiles :: "string \<rightharpoonup> string"
  Applied :: "string list"

text \<open>
  The executor's state: the file tree it shares with the matcher, the import-to-add set
  (\<open>map[string]bool\<close>, only ever assigned true), and the next free address, from which the
  nodes the executor creates are allocated.
\<close>

record Executor =
  e_file :: astnode
  e_imports :: "string set"
  e_next :: nat

subsection \<open>Pointers into the shared tree\<close>

text \<open>
  A binding holds a pointer; what the executor reads through it is the node as it is in
  the tree now.  \<open>deref\<close> replaces a node value by the node of the same address in the
  current tree (a node that is not in the tree is left as it is), and \<open>updateNode\<close>
  performs an assignment through a pointer: it changes the node at that address.
\<close>

definition lookupNode :: "nat \<Rightarrow> astnode \<Rightarrow> astnode option" where
  "lookupNode a root = find (\<lambda>m. nid m = a) (Inspect root)"

fun deref :: "astnode \<Rightarrow> val \<Rightarrow> val" where
  "deref root (VNode n) = (case lookupNode (nid n) root of None \<Rightarrow> VNode n | Some m \<Rightarrow> VNode m)"
| "deref root (VSlice vs) = VSlice (map (deref root) vs)"
| "deref root VNil = VNil"
| "deref root VNilSlice = VNilSlice"
| "deref root (VString s) = VString s"
| "deref root (VTok t) = VTok t"
| "deref root (VInt i) = VInt i"
| "deref root (VBool b) = VBool b"

definition liveBindings :: "Executor \<Rightarrow> Bindings \<Rightarrow> Bindings" where
  "liveBindings e bindings = (\<lambda>name. map_option (deref (e_file e)) (bindings name))"

fun updateNode :: "nat \<Rightarrow> (astnode \<Rightarrow> astnode) \<Rightarrow> astnode \<Rightarrow> astnode"
and updateVal :: "nat \<Rightarrow> (astnode \<Rightarrow> astnode) \<Rightarrow> val \<Rightarrow> val"
and updateVals :: "nat \<Rightarrow> (astnode \<Rightarrow> astnode) \<Rightarrow> val list \<Rightarrow> val list"
and updateFields :: "nat \<Rightarrow> (astnode \<Rightarrow> astnode) \<Rightarrow> (string \<times> val) list \<Rightarrow> (string \<times> val) list" where
  "updateNode a f (AstNode i k fs) =
     (if i = a then f (AstNode i k fs) else AstNode i k (updateFields a f fs))"
| "updateVal a f (VNode n) = VNode (updateNode a f n)"
| "updateVal a f (VSlice vs) = VSlice (updateVals a f vs)"
| "updateVal a f VNil = VNil"
| "updateVal a f VNilSlice = VNilSlice"
| "updateVal a f (VString s) = VString s"
| "updateVal a f (VTok t) = VTok t"
| "updateVal a f (VInt j) = VInt j"
| "updateVal a f (VBool b) = VBool b"
| "updateVals a f [] = []"
| "updateVals a f (v # vs) = updateVal a f v # updateVals a f vs"
| "updateFields a f [] = []"
| "updateFields a f (fld # fs) = (fst fld, updateVal a f (snd fld)) # updateFields a f fs"

fun setAssoc :: "string \<Rightarrow> val \<Rightarrow> (string \<times> val) list \<Rightarrow> (string \<times> val) list" where
  "setAssoc name v [] = [(name, v)]"
| "setAssoc name v (fld # fs) =
     (if fst fld = name then (name, v) # fs else fld # setAssoc name v fs)"

text \<open>The assignment \<open>n.name = v\<close>.\<close>

definition setField :: "string \<Rightarrow> val \<Rightarrow> astnode \<Rightarrow> astnode" where
  "setField name v n = AstNode (nid n) (kind n) (setAssoc name v (flds n))"

text \<open>A slice-typed struct field (nil when unset), the elements of a slice, and \<open>append\<close>.\<close>

definition sliceField :: "astnode \<Rightarrow> string \<Rightarrow> val" where
  "sliceField n name = (case FieldByName n name of Some (VSlice xs) \<Rightarrow> VSlice xs | _ \<Rightarrow> VNilSlice)"

definition elems :: "val \<Rightarrow> val list" where
  "elems v = (case v of VSlice xs \<Rightarrow> xs | _ \<Rightarrow> [])"

definition appendSlice :: "val \<Rightarrow> val list \<Rightarrow> val" where
  "appendSlice s xs = (if xs = [] then s else VSlice (elems s @ xs))"

text \<open>The type assertion of \<open>v\<close> to the pointer type of the node kind \<open>k\<close>.\<close>

definition asKind :: "val \<Rightarrow> string \<Rightarrow> astnode option" where
  "asKind v k = (case v of VNode n \<Rightarrow> if kind n = k then Some n else None | _ \<Rightarrow> None)"

subsection \<open>Synthesised nodes\<close>

definition newIdent :: "nat \<Rightarrow> string \<Rightarrow> astnode" where
  "newIdent a name = AstNode a ''Ident'' [(''NamePos'', VInt 0), (''Name'', VString name), (''Obj'', VNil)]"

text \<open>\<open>parseTypeExpr\<close>: a selector for a dotted name, a bare identifier otherwise.\<close>

definition parseTypeExpr :: "string \<Rightarrow> nat \<Rightarrow> astnode \<times> nat" where
  "parseTypeExpr typeStr a =
     (if Contains typeStr ''.''
      then (let parts = SplitN2 typeStr (CHR ''.'') in
            (AstNode (a + 2) ''SelectorExpr''
               [(''X'', VNode (newIdent a (parts ! 0))), (''Sel'', VNode (newIdent (a + 1) (parts ! 1)))],
             a + 3))
      else (newIdent a typeStr, a + 1))"

definition isFuncDecl :: "val \<Rightarrow> bool" where
  "isFuncDecl v = (case v of VNode n \<Rightarrow> kind n = ''FuncDecl'' | _ \<Rightarrow> False)"

text \<open>
  \<open>parseStatements\<close>: the code is wrapped into a function body and parsed; the result is
  the statement list of the first function declaration.
\<close>

definition parseStatements :: "goenv \<Rightarrow> string \<Rightarrow> nat \<Rightarrow> error + (val \<times> nat)" where
  "parseStatements G code a =
     (case ParseFile G (''package p'' @ [CHR 0x0A] @ ''func f() {'' @ [CHR 0x0A] @ code
                         @ [CHR 0x0A] @ ''}'') a of
        None \<Rightarrow> Inl ParseError
      | Some (f, a') \<Rightarrow>
          (case find isFuncDecl (elems (sliceField f ''Decls'')) of
             Some (VNode fd) \<Rightarrow>
               (case FieldByName fd ''Body'' of
                  Some (VNode body) \<Rightarrow> Inr (sliceField body ''List'', a')
                | _ \<Rightarrow> Inl NilDereference)
           | _ \<Rightarrow> Inl NoStatementsFound))"

subsection \<open>Actions\<close>

definition addImport :: "string \<Rightarrow> Executor \<Rightarrow> Executor" where
  "addImport pkg e = e\<lparr>e_imports := insert pkg (e_imports e)\<rparr>"

definition executeInsert :: "goenv \<Rightarrow> InsertClause \<Rightarrow> Bindings \<Rightarrow> Executor \<Rightarrow> error option \<times> Executor" where
  "executeInsert G ins bindings e =
     (if Mode ins \<noteq> ''code'' then (Some (InsertModeNotSupported (Mode ins)), e)
      else case Code ins of
        None \<Rightarrow> (Some InsertRequiresCode, e)
      | Some text \<Rightarrow>
      (case PosBinding (Position ins) of
        None \<Rightarrow> (Some InsertRequiresTarget, e)
      | Some targetName \<Rightarrow>
      (case bindings targetName of
        None \<Rightarrow> (Some (BindingNotFound targetName), e)
      | Some target \<Rightarrow>
      (case asKind target ''BlockStmt'' of
        None \<Rightarrow> (Some (NotABlockStmt targetName), e)
      | Some blockStmt \<Rightarrow>
          (let codeText = interpolate G (Trim text ''`'') (liveBindings e bindings);
               e1 = (if Contains codeText ''context.'' then addImport ''context'' e else e);
               e2 = (if Contains codeText ''time.'' then addImport ''time'' e1 else e1)
           in case parseStatements G codeText (e_next e2) of
                Inl err \<Rightarrow> (Some (ParseInsertCode err), e2)
              | Inr (stmts, a') \<Rightarrow>
                  if PosKind (Position ins) = ''prepend''
                  then (None, e2\<lparr>e_file := updateNode (nid blockStmt)
                                   (\<lambda>n. setField ''List''
                                          (appendSlice stmts (elems (sliceField n ''List''))) n)
                                   (e_file e2),
                                 e_next := a'\<rparr>)
                  else if PosKind (Position ins) = ''append''
                  then (None, e2\<lparr>e_file := updateNode (nid blockStmt)
                                   (\<lambda>n. setField ''List''
                                          (appendSlice (sliceField n ''List'') (elems stmts)) n)
                                   (e_file e2),
                                 e_next := a'\<rparr>)
                  else (Some (PositionNotSupported (PosKind (Position ins))), e2\<lparr>e_next := a'\<rparr>))))))"

definition executeSet :: "SetStmt \<Rightarrow> Bindings \<Rightarrow> Executor \<Rightarrow> error option \<times> Executor" where
  "executeSet st bindings e =
     (case bindings (PathBinding (Path st)) of
        None \<Rightarrow> (Some (BindingNotFound (PathBinding (Path st))), e)
      | Some target \<Rightarrow>
          if Segments (Path st) = [''first'']
          then (case asKind target ''FieldList'' of
                  None \<Rightarrow> (Some (NotAFieldList (PathBinding (Path st))), e)
                | Some fl \<Rightarrow>
                    (case SetValue st of
                       ExprString str \<Rightarrow>
                         (let fieldSpec = Trim str [CHR 0x22];
                              parts = SplitN2 fieldSpec (CHR '' '')
                          in if length parts \<noteq> 2 then (Some (InvalidFieldSpec fieldSpec), e)
                             else
                               (let (typ, a') = parseTypeExpr (parts ! 1) (Suc (e_next e));
                                    newField = AstNode a' ''Field''
                                      [(''Doc'', VNil),
                                       (''Names'', VSlice [VNode (newIdent (e_next e) (parts ! 0))]),
                                       (''Type'', VNode typ), (''Tag'', VNil), (''Comment'', VNil)];
                                    e1 = e\<lparr>e_file := updateNode (nid fl)
                                             (\<lambda>n. setField ''List''
                                                    (VSlice (VNode newField # elems (sliceField n ''List''))) n)
                                             (e_file e),
                                           e_next := Suc a'\<rparr>
                                in (None, if Contains (parts ! 1) ''context.''
                                          then addImport ''context'' e1 else e1)))
                     | _ \<Rightarrow> (Some SetValueNotString, e)))
          else (Some (SetPathNotSupported (PathBinding (Path st)) (Segments (Path st))), e))"

text \<open>
  \<open>executePatchStmt\<close> handles rename, set and retype; for a conditional statement (one
  nested in another conditional) none of its branches applies and it returns nil.
\<close>

definition executePatchStmt :: "PatchStmt \<Rightarrow> Bindings \<Rightarrow> Executor \<Rightarrow> error option \<times> Executor" where
  "executePatchStmt stmt bindings e =
     (case stmt of
        PRename r \<Rightarrow>
          (case bindings (RenameBinding r) of
             None \<Rightarrow> (Some (BindingNotFound (RenameBinding r)), e)
           | Some target \<Rightarrow>
               (case asKind target ''Ident'' of
                  None \<Rightarrow> (Some (NotAnIdentifier (RenameBinding r)), e)
                | Some ident \<Rightarrow>
                    (None, e\<lparr>e_file := updateNode (nid ident)
                               (setField ''Name'' (VString (Trim (NewName r) [CHR 0x22])))
                               (e_file e)\<rparr>)))
      | PSet st \<Rightarrow> executeSet st bindings e
      | PRetype r \<Rightarrow> (Some RetypeNotImplemented, e)
      | PIf c \<Rightarrow> (None, e))"

fun executePatchStmts :: "PatchStmt list \<Rightarrow> Bindings \<Rightarrow> Executor \<Rightarrow> error option \<times> Executor" where
  "executePatchStmts [] bindings e = (None, e)"
| "executePatchStmts (nested # stmts) bindings e =
     (case executePatchStmt nested bindings e of
        (Some err, e') \<Rightarrow> (Some err, e')
      | (None, e') \<Rightarrow> executePatchStmts stmts bindings e')"

text \<open>The loop of \<open>executePatch\<close> over the statements of a patch clause.\<close>

fun executePatchLoop :: "PatchStmt list \<Rightarrow> Bindings \<Rightarrow> Executor \<Rightarrow> error option \<times> Executor" where
  "executePatchLoop [] bindings e = (None, e)"
| "executePatchLoop (stmt # stmts) bindings e =
     (case stmt of
        PIf c \<Rightarrow>
          (if EvalPredicate (Condition c) (liveBindings e bindings)
           then (case executePatchStmts (CondStmts c) bindings e of
                   (Some err, e') \<Rightarrow> (Some err, e')
                 | (None, e') \<Rightarrow> executePatchLoop stmts bindings e')
           else executePatchLoop stmts bindings e)
      | _ \<Rightarrow>
          (case executePatchStmt stmt bindings e of
             (Some err, e') \<Rightarrow> (Some err, e')
           | (None, e') \<Rightarrow> executePatchLoop stmts bindings e'))"

definition executePatch :: "PatchClause \<Rightarrow> Bindings \<Rightarrow> Executor \<Rightarrow> error option \<times> Executor" where
  "executePatch patch bindings e = executePatchLoop (PatchStmts patch) bindings e"

definition executeDelete :: "DeleteClause \<Rightarrow> Bindings \<Rightarrow> Executor \<Rightarrow> error option \<times> Executor" where
  "executeDelete del bindings e = (Some DeleteNotImplemented, e)"

definition executeEmit :: "goenv \<Rightarrow> EmitClause \<Rightarrow> Bindings \<Rightarrow> Executor \<Rightarrow> error + string" where
  "executeEmit G emit bindings e =
     (case Template emit of
        Some text \<Rightarrow> Inr (interpolate G (Trim text ''`'') (liveBindings e bindings))
      | None \<Rightarrow>
          (case CodeBody emit of
             Some text \<Rightarrow>
               (let content = interpolate G (Trim text ''`'') (liveBindings e bindings)
                in case Package emit of
                     Some pkg \<Rightarrow> Inr (''package '' @ pkg @ [CHR 0x0A, CHR 0x0A] @ content)
                   | None \<Rightarrow> Inr content)
           | None \<Rightarrow>
               (case ASTBody emit of
                  Some body \<Rightarrow> Inl EmitASTNotImplemented
                | None \<Rightarrow> Inr [])))"

subsection \<open>Import reconciliation\<close>

definition isImportDecl :: "val \<Rightarrow> bool" where
  "isImportDecl v =
     (case v of
        VNode gd \<Rightarrow> kind gd = ''GenDecl'' \<and> FieldByName gd ''Tok'' = Some (VTok ''import'')
      | _ \<Rightarrow> False)"

text \<open>
  The first import declaration among the top-level declarations, with the declarations
  before and after it.
\<close>

fun findImportDecl :: "val list \<Rightarrow> (val list \<times> astnode \<times> val list) option" where
  "findImportDecl [] = None"
| "findImportDecl (d # ds) =
     (case (if isImportDecl d then toNode d else None) of
        Some gd \<Rightarrow> Some ([], gd, ds)
      | None \<Rightarrow>
          (case findImportDecl ds of
             None \<Rightarrow> None
           | Some (before, gd, after) \<Rightarrow> Some (d # before, gd, after)))"

text \<open>
  The paths of the import specs of a declaration, quotes trimmed; \<open>None\<close> is the panic
  of reading \<open>is.Path.Value\<close> through a nil \<open>Path\<close>.
\<close>

fun existingImports :: "val list \<Rightarrow> string list option" where
  "existingImports [] = Some []"
| "existingImports (spec # specs) =
     (case asKind spec ''ImportSpec'' of
        None \<Rightarrow> existingImports specs
      | Some is \<Rightarrow>
          (case FieldByName is ''Path'' of
             Some (VNode lit) \<Rightarrow>
               (case existingImports specs of
                  None \<Rightarrow> None
                | Some paths \<Rightarrow> Some (Trim (stringField lit ''Value'') [CHR 0x22] # paths))
           | _ \<Rightarrow> None))"

definition newImportSpec :: "nat \<Rightarrow> string \<Rightarrow> astnode" where
  "newImportSpec a imp =
     AstNode (Suc a) ''ImportSpec''
       [(''Doc'', VNil), (''Name'', VNil),
        (''Path'', VNode (AstNode a ''BasicLit''
           [(''ValuePos'', VInt 0), (''Kind'', VTok ''STRING''),
            (''Value'', VString (quote imp))])),
        (''Comment'', VNil), (''EndPos'', VInt 0)]"

text \<open>The loop that appends a spec for every key that is not among the existing paths.\<close>

fun addMissing :: "string list \<Rightarrow> string list \<Rightarrow> astnode \<Rightarrow> nat \<Rightarrow> astnode \<times> nat" where
  "addMissing existing [] importDecl a = (importDecl, a)"
| "addMissing existing (imp # keys) importDecl a =
     (if imp \<in> set existing then addMissing existing keys importDecl a
      else addMissing existing keys
             (setField ''Specs''
                (appendSlice (sliceField importDecl ''Specs'') [VNode (newImportSpec a imp)])
                importDecl)
             (a + 2))"

definition ensureParens :: "astnode \<Rightarrow> astnode" where
  "ensureParens importDecl =
     (if length (elems (sliceField importDecl ''Specs'')) > 1
      then setField ''Rparen'' (VInt 1) (setField ''Lparen'' (VInt 1) importDecl)
      else importDecl)"

definition newImportDecl :: "nat \<Rightarrow> astnode" where
  "newImportDecl a =
     AstNode a ''GenDecl''
       [(''Doc'', VNil), (''TokPos'', VInt 0), (''Tok'', VTok ''import''), (''Lparen'', VInt 1),
        (''Specs'', VNilSlice), (''Rparen'', VInt 1)]"

text \<open>
  \<open>addImports\<close>; \<open>keys\<close> is the order in which \<open>range e.imports\<close> yields the keys.  The
  import declaration is a pointer into the declaration list, so the changes made to it
  happen in place in the list.
\<close>

definition addImports :: "string list \<Rightarrow> Executor \<Rightarrow> Executor option" where
  "addImports keys e =
     (if e_imports e = {} then Some e
      else
        (let decls = elems (sliceField (e_file e) ''Decls'');
             (before, importDecl, after, a) =
               (case findImportDecl decls of
                  Some (before, gd, after) \<Rightarrow> (before, gd, after, e_next e)
                | None \<Rightarrow> ([], newImportDecl (e_next e), decls, Suc (e_next e)))
         in case existingImports (elems (sliceField importDecl ''Specs'')) of
              None \<Rightarrow> None
            | Some existing \<Rightarrow>
                (let (importDecl', a') = addMissing existing keys importDecl a
                 in Some (e\<lparr>e_file := setField ''Decls''
                                        (VSlice (before @ VNode (ensureParens importDecl') # after))
                                        (e_file e),
                            e_next := a'\<rparr>))))"

subsection \<open>Execute\<close>

text \<open>One pass of the body of the inner loop: one action applied to one match.\<close>

definition executeAction ::
  "goenv \<Rightarrow> Action \<Rightarrow> Match \<Rightarrow> Result \<Rightarrow> Executor \<Rightarrow> (error + Result) \<times> Executor" where
  "executeAction G action match result e =
     (case action of
        Insert ins \<Rightarrow>
          (case executeInsert G ins (Bindings match) e of
             (Some err, e') \<Rightarrow> (Inl (InsertFailed err), e')
           | (None, e') \<Rightarrow> (Inr (result\<lparr>Applied := Applied result @ [''insert'']\<rparr>), e'))
      | Patch patch \<Rightarrow>
          (case executePatch patch (Bindings match) e of
             (Some err, e') \<Rightarrow> (Inl (PatchFailed err), e')
           | (None, e') \<Rightarrow> (Inr (result\<lparr>Applied := Applied result @ [''patch'']\<rparr>), e'))
      | Delete del \<Rightarrow>
          (case executeDelete del (Bindings match) e of
             (Some err, e') \<Rightarrow> (Inl (DeleteFailed err), e')
           | (None, e') \<Rightarrow> (Inr (result\<lparr>Applied := Applied result @ [''delete'']\<rparr>), e'))
      | Emit emit \<Rightarrow>
          (case executeEmit G emit (Bindings match) e of
             Inl err \<Rightarrow> (Inl (EmitFailed err), e)
           | Inr content \<Rightarrow>
               (let filename = Trim (File emit) [CHR 0x22]
                in (Inr (result\<lparr>EmittedFiles := (EmittedFiles result)(filename \<mapsto> content),
                                 Applied := Applied result @ [''emit:'' @ filename]\<rparr>), e))))"

fun executeMatches ::
  "goenv \<Rightarrow> Action \<Rightarrow> Match list \<Rightarrow> Result \<Rightarrow> Executor \<Rightarrow> (error + Result) \<times> Executor" where
  "executeMatches G action [] result e = (Inr result, e)"
| "executeMatches G action (match # matches) result e =
     (case executeAction G action match result e of
        (Inl err, e') \<Rightarrow> (Inl err, e')
      | (Inr result', e') \<Rightarrow> executeMatches G action matches result' e')"

fun executeActions ::
  "goenv \<Rightarrow> Action list \<Rightarrow> Match list \<Rightarrow> Result \<Rightarrow> Executor \<Rightarrow> (error + Result) \<times> Executor" where
  "executeActions G [] matches result e = (Inr result, e)"
| "executeActions G (action # actions) matches result e =
     (case executeMatches G action matches result e of
        (Inl err, e') \<Rightarrow> (Inl err, e')
      | (Inr result', e') \<Rightarrow> executeActions G actions matches result' e')"

text \<open>
  \<open>Execute\<close>: the actions, then import reconciliation, then re-rendering.  An error
  stands for the Go result \<open>(nil, err)\<close>.
\<close>

definition Execute ::
  "goenv \<Rightarrow> LiftBlock \<Rightarrow> Match list \<Rightarrow> Executor \<Rightarrow> (error + Result) \<times> Executor" where
  "Execute G block matches e =
     (case executeActions G (Actions block) matches
             \<lparr>ModifiedSource = [], EmittedFiles = Map.empty, Applied = []\<rparr> e of
        (Inl err, e') \<Rightarrow> (Inl err, e')
      | (Inr result, e') \<Rightarrow>
          (case addImports (RangeKeys G (e_imports e')) e' of
             None \<Rightarrow> (Inl NilDereference, e')
           | Some e'' \<Rightarrow>
               (case FormatNode G (e_file e'') of
                  None \<Rightarrow> (Inl FormatError, e'')
                | Some src \<Rightarrow> (Inr (result\<lparr>ModifiedSource := src\<rparr>), e''))))"

section \<open>Notions used in the statements\<close>

text \<open>
  The action applications of a run in the order of the two nested loops of \<open>Execute\<close>
  (every action, and for each action every match), and a run over such a list.
\<close>

definition applications :: "LiftBlock \<Rightarrow> Match list \<Rightarrow> (Action \<times> Match) list" where
  "applications block matches =
     concat (map (\<lambda>action. map (Pair action) matches) (Actions block))"

fun runApplications ::
  "goenv \<Rightarrow> (Action \<times> Match) list \<Rightarrow> Result \<Rightarrow> Executor \<Rightarrow> (error + Result) \<times> Executor" where
  "runApplications G [] result e = (Inr result, e)"
| "runApplications G (app # apps) result e =
     (case executeAction G (fst app) (snd app) result e of
        (Inl err, e') \<Rightarrow> (Inl err, e')
      | (Inr result', e') \<Rightarrow> runApplications G apps result' e')"

definition emptyResult :: Result where
  "emptyResult = \<lparr>ModifiedSource = [], EmittedFiles = Map.empty, Applied = []\<rparr>"

text \<open>
  The imports of a file: the trimmed paths of the import specs of its first import
  declaration (none when the file has no import declaration).
\<close>

definition fileImports :: "astnode \<Rightarrow> string list option" where
  "fileImports f =
     (case findImportDecl (elems (sliceField f ''Decls'')) of
        None \<Rightarrow> Some []
      | Some (before, gd, after) \<Rightarrow> existingImports (elems (sliceField gd ''Specs'')))"

text \<open>A package name that neither begins nor ends with a double quote.\<close>

definition unquoted :: "string \<Rightarrow> bool" where
  "unquoted imp = (take 1 imp \<noteq> [CHR 0x22] \<and> take 1 (rev imp) \<noteq> [CHR 0x22])"

text \<open>
  Between two executor states the import-to-add set has only grown, and only by the
  packages \<open>context\<close> and \<open>time\<close>.
\<close>

definition grows :: "Executor \<Rightarrow> Executor \<Rightarrow> bool" where
  "grows e e' =
     (e_imports e \<subseteq> e_imports e' \<and> e_imports e' \<subseteq> e_imports e \<union> {''context'', ''time''})"

section \<open>Example inputs\<close>

text \<open>A lift block that has only a from-clause, and a block with its matchers replaced.\<close>

definition withMatchers :: "LiftBlock \<Rightarrow> MatchStmt list \<Rightarrow> LiftBlock" where
  "withMatchers block ms = block\<lparr>From := Some \<lparr>Matchers = ms\<rparr>\<rparr>"

definition emptyBlock :: LiftBlock where
  "emptyBlock = \<lparr>Name = ''test'', From = None, Where = [], Actions = []\<rparr>"

text \<open>
  The cross-join in the spec's words: the Cartesian product \<open>A \<times> B\<close>, each pair's bindings
  merged with the right side winning on a name collision.
\<close>

definition spec_cross_join :: "Match list \<Rightarrow> Match list \<Rightarrow> Match list" where
  "spec_cross_join A B =
     concat (map (\<lambda>a. map (\<lambda>b. \<lparr>Node = Node a, Bindings = Bindings a ++ Bindings b\<rparr>) B) A)"

text \<open>A file \<open>package m\<close> with no declaration, and one with a function \<open>f\<close>.\<close>

definition identNode :: "nat \<Rightarrow> string \<Rightarrow> astnode" where
  "identNode i name = AstNode i ''Ident'' [(''Name'', VString name)]"

definition bareFile :: astnode where
  "bareFile = AstNode 1 ''File'' [(''Name'', VNode (identNode 2 ''m'')), (''Decls'', VNilSlice)]"

definition oneFuncFile :: astnode where
  "oneFuncFile = AstNode 1 ''File''
     [(''Name'', VNode (identNode 2 ''m'')),
      (''Decls'', VSlice [VNode (AstNode 3 ''FuncDecl'' [(''Name'', VNode (identNode 4 ''f''))])])]"

definition matchFuncDecl :: MatchStmt where
  "matchFuncDecl = \<lparr>NodeType = ''FuncDecl'', In = None, Fields = [FieldMatch ''name'' (Binding ''F'')]\<rparr>"

definition matchIdent :: MatchStmt where
  "matchIdent = \<lparr>NodeType = ''Ident'', In = None, Fields = [FieldMatch ''name'' (Binding ''N'')]\<rparr>"

text \<open>The type of \<open>func()\<close>: a parameter list and no result list (\<open>Results\<close> is a nil pointer).\<close>

definition noResultFuncType :: astnode where
  "noResultFuncType = AstNode 1 ''FuncType''
     [(''Params'', VNode (AstNode 2 ''FieldList'' [(''List'', VNilSlice)])), (''Results'', VNil)]"

definition matchResultsSpread :: MatchStmt where
  "matchResultsSpread = \<lparr>NodeType = ''FuncType'', In = None,
      Fields = [FieldMatch ''results'' (Spread ''Results'')]\<rparr>"

definition matchResultsSimple :: MatchStmt where
  "matchResultsSimple = \<lparr>NodeType = ''FuncType'', In = None,
      Fields = [FieldMatch ''results'' (Binding ''Results'')]\<rparr>"

text \<open>The selector expression \<open>http.Get\<close>: two different identifiers.\<close>

definition httpGet :: astnode where
  "httpGet = AstNode 1 ''SelectorExpr''
     [(''X'', VNode (identNode 2 ''http'')), (''Sel'', VNode (identNode 3 ''Get''))]"

text \<open>The predicate \<open>contains($B, Ident { name: "f" })\<close>.\<close>

definition containsIdentF :: ContainsPred where
  "containsIdentF = \<lparr>ContainsBinding = ''B'',
      ContainsPattern = ASTPattern ''Ident'' [FieldMatch ''name'' (Exact [CHR 0x22, CHR ''f'', CHR 0x22])]\<rparr>"

text \<open>An executor on a file, with nothing to import yet.\<close>

definition startState :: "astnode \<Rightarrow> Executor" where
  "startState f = \<lparr>e_file = f, e_imports = {}, e_next = 100\<rparr>"

text \<open>
  A block that renames the matched function to \<open>g\<close> and then has a delete action, its
  only match on \<open>oneFuncFile\<close>, and that file after the renaming.
\<close>

definition renameToG :: PatchClause where
  "renameToG = \<lparr>PatchStmts = [PRename \<lparr>RenameBinding = ''F'', NewName = quote ''g''\<rparr>]\<rparr>"

definition removeF :: DeleteClause where
  "removeF = \<lparr>DeleteStmts = [\<lparr>PathBinding = ''F'', Segments = []\<rparr>]\<rparr>"

definition renameThenDelete :: LiftBlock where
  "renameThenDelete = \<lparr>Name = ''test'', From = Some \<lparr>Matchers = [matchFuncDecl]\<rparr>, Where = [],
     Actions = [Patch renameToG, Delete removeF]\<rparr>"

definition funcMatch :: Match where
  "funcMatch = \<lparr>Node = AstNode 3 ''FuncDecl'' [(''Name'', VNode (identNode 4 ''f''))],
                 Bindings = [''F'' \<mapsto> VNode (identNode 4 ''f'')]\<rparr>"

definition renamedFile :: astnode where
  "renamedFile = AstNode 1 ''File''
     [(''Name'', VNode (identNode 2 ''m'')),
      (''Decls'', VSlice [VNode (AstNode 3 ''FuncDecl'' [(''Name'', VNode (identNode 4 ''g''))])])]"

text \<open>A block that emits the template \<open>name ${N}\<close> to \<open>out.txt\<close> for every identifier.\<close>

definition emitOut :: EmitClause where
  "emitOut = \<lparr>Target = ''json'', File = quote ''out.txt'', Package = None, ASTBody = None,
               CodeBody = None, Template = Some ''`name ${N}`''\<rparr>"

definition emitNames :: LiftBlock where
  "emitNames = \<lparr>Name = ''test'', From = Some \<lparr>Matchers = [matchIdent]\<rparr>, Where = [],
     Actions = [Emit emitOut]\<rparr>"

text \<open>
  A file with the function \<open>func f()\<close>, the matcher \<open>FuncType { params: $P... }\<close> with
  the bindings of its only match, and the statement \<open>set $P.first = "..."\<close>.
\<close>

definition paramsFile :: astnode where
  "paramsFile = AstNode 1 ''File''
     [(''Name'', VNode (identNode 2 ''m'')),
      (''Decls'', VSlice [VNode (AstNode 3 ''FuncDecl''
         [(''Name'', VNode (identNode 4 ''f'')),
          (''Type'', VNode (AstNode 5 ''FuncType''
             [(''Params'', VNode (AstNode 6 ''FieldList'' [(''List'', VNilSlice)])),
              (''Results'', VNil)]))])])]"

definition matchParams :: MatchStmt where
  "matchParams = \<lparr>NodeType = ''FuncType'', In = None, Fields = [FieldMatch ''params'' (Spread ''P'')]\<rparr>"

definition paramsBindings :: Bindings where
  "paramsBindings = [''P'' \<mapsto> VNode (AstNode 6 ''FieldList'' [(''List'', VNilSlice)])]"

definition setFirst :: "string \<Rightarrow> SetStmt" where
  "setFirst spec = \<lparr>Path = \<lparr>PathBinding = ''P'', Segments = [''first'']\<rparr>,
                     SetValue = ExprString (quote spec)\<rparr>"

definition setFirstBlock :: "string \<Rightarrow> LiftBlock" where
  "setFirstBlock spec = \<lparr>Name = ''test'', From = Some \<lparr>Matchers = [matchParams]\<rparr>, Where = [],
     Actions = [Patch \<lparr>PatchStmts = [PSet (setFirst spec)]\<rparr>]\<rparr>"

text \<open>The executor after \<open>set $P.first = "ctx context.Context"\<close>, and after reconciliation.\<close>

definition ctxSetState :: Executor where
  "ctxSetState =
     snd (executeSet (setFirst ''ctx context.Context'') paramsBindings (startState paramsFile))"

definition ctxImportedState :: Executor where
  "ctxImportedState = the (addImports [''context''] ctxSetState)"

text \<open>The only match of \<open>matchParams\<close> on \<open>paramsFile\<close>, and the matches of \<open>matchIdent\<close> on \<open>oneFuncFile\<close>.\<close>

definition paramsMatch :: Match where
  "paramsMatch = \<lparr>Node = AstNode 5 ''FuncType''
       [(''Params'', VNode (AstNode 6 ''FieldList'' [(''List'', VNilSlice)])), (''Results'', VNil)],
     Bindings = paramsBindings\<rparr>"

definition identMatches :: "Match list" where
  "identMatches = [\<lparr>Node = identNode 2 ''m'', Bindings = [''N'' \<mapsto> VString ''m'']\<rparr>,
                   \<lparr>Node = identNode 4 ''f'', Bindings = [''N'' \<mapsto> VString ''f'']\<rparr>]"

text \<open>An executor that has two packages to import, before and after reconciliation.\<close>

definition twoImportsState :: Executor where
  "twoImportsState = \<lparr>e_file = paramsFile, e_imports = {''context'', ''time''}, e_next = 100\<rparr>"

definition twoImportsDone :: Executor where
  "twoImportsDone = the (addImports [''context'', ''time''] twoImportsState)"

text \<open>A Go environment for the examples.\<close>

definition testEnv :: goenv where
  "testEnv = \<lparr>SprintfV = (\<lambda>v. ''<value>''), ParseFile = (\<lambda>src a. None),
     FormatNode = (\<lambda>file. Some ''<source>''),
     RangeKeys = (\<lambda>s. filter (\<lambda>k. k \<in> s) [''context'', ''time''])\<rparr>"

section \<open>Evaluation lemmas\<close>

lemma mapFieldName_simps [simp]:
  "mapFieldName ''name'' = ''Name''"
  "mapFieldName ''type'' = ''Type''"
  "mapFieldName ''results'' = ''Results''"
  "mapFieldName ''params'' = ''Params''"
  "mapFieldName ''body'' = ''Body''"
  "mapFieldName ''x'' = ''X''"
  "mapFieldName ''sel'' = ''Sel''"
  by (simp_all add: mapFieldName_def fieldMap_def)

lemmas matcher_defs =
  MatchBlock_def MatchBlock_step_def matchStmt_def nodeTypeMatches_def crossJoin_def
  getField_def FieldByName_def withMatchers_def emptyBlock_def identNode_def

lemma testEnv_simps [simp]:
  "SprintfV testEnv v = ''<value>''"
  "ParseFile testEnv src a = None"
  "FormatNode testEnv f = Some ''<source>''"
  "RangeKeys testEnv s = filter (\<lambda>k. k \<in> s) [''context'', ''time'']"
  by (simp_all add: testEnv_def)

lemmas executor_defs =
  Execute_def executeAction_def executePatch_def executePatchStmt_def executeSet_def
  executeDelete_def executeEmit_def addImports_def addImport_def asKind_def setField_def
  sliceField_def elems_def appendSlice_def liveBindings_def lookupNode_def parseTypeExpr_def
  newIdent_def newImportDecl_def newImportSpec_def ensureParens_def isImportDecl_def
  fileImports_def startState_def emptyResult_def stringField_def toNode_def
  Trim_def quote_def SplitN2_def applications_def


section \<open>The matcher: cross-matcher composition\<close>

lemma MatchBlock_snoc:
  "ms \<noteq> [] \<Longrightarrow>
   MatchBlock file (withMatchers block (ms @ [stmt])) =
   MatchBlock_step file (MatchBlock file (withMatchers block ms)) stmt"
  by (cases ms) (simp_all add: MatchBlock_def withMatchers_def)

text \<open>
  C1, as amended.  Let matcher \<open>k > 1\<close> of a lift block have no \<open>in\<close> clause, let \<open>A\<close> be
  the match set accumulated by the matchers before it and \<open>B\<close> its whole-file match set.
  When both are non-empty the result after matcher \<open>k\<close> is the Cartesian product
  \<open>A \<times> B\<close> with bindings merged and \<open>B\<close> winning on a collision; when \<open>A\<close> is empty the
  result is \<open>B\<close>, and when \<open>B\<close> is empty the result is \<open>A\<close>.
\<close>

theorem MatchBlock_cross_join:
  assumes "ms \<noteq> []" and "In stmt = None"
  shows "MatchBlock file (withMatchers block (ms @ [stmt])) =
     (let A = MatchBlock file (withMatchers block ms); B = matchStmt stmt file None in
      if A = [] then B else if B = [] then A else spec_cross_join A B)"
  using assms
  by (simp add: MatchBlock_snoc MatchBlock_step_def crossJoin_def spec_cross_join_def Let_def)

theorem MatchBlock_cross_join_witness:
  "[matchFuncDecl] \<noteq> [] \<and> In matchIdent = None \<and>
   map (\<lambda>m. (nid (Node m), map (Bindings m) [''F'', ''N'']))
     (MatchBlock oneFuncFile (withMatchers emptyBlock ([matchFuncDecl] @ [matchIdent]))) =
   [(3, [Some (VNode (identNode 4 ''f'')), Some (VString ''m'')]),
    (3, [Some (VNode (identNode 4 ''f'')), Some (VString ''f'')])]"
  using MatchBlock_cross_join [of "[matchFuncDecl]" matchIdent oneFuncFile emptyBlock]
  by (simp add: matcher_defs oneFuncFile_def matchFuncDecl_def matchIdent_def spec_cross_join_def)

text \<open>
  C1 as stated fails: on a file without function declarations the first matcher
  (\<open>FuncDecl\<close>) yields the empty set \<open>A\<close>, yet the block's result after the second matcher
  (\<open>Ident\<close>, no \<open>in\<close>) is not the (empty) product \<open>A \<times> B\<close>: it is \<open>B\<close>.
\<close>

theorem MatchBlock_cross_join_counterexample:
  "MatchBlock bareFile (withMatchers emptyBlock [matchFuncDecl]) = [] \<and>
   In matchIdent = None \<and>
   MatchBlock bareFile (withMatchers emptyBlock [matchFuncDecl, matchIdent]) \<noteq>
     spec_cross_join (MatchBlock bareFile (withMatchers emptyBlock [matchFuncDecl]))
                     (matchStmt matchIdent bareFile None)"
  by (simp add: matcher_defs bareFile_def matchFuncDecl_def matchIdent_def spec_cross_join_def)

section \<open>The matcher: field unification\<close>

lemma matchFields_append:
  "matchFields n (fs @ gs) b =
     (case matchFields n fs b of None \<Rightarrow> None | Some b' \<Rightarrow> matchFields n gs b')"
  by (induction fs arbitrary: b) (auto split: option.splits)

text \<open>
  C2 at its failing input.  On the type of \<open>func()\<close>, whose \<open>Results\<close> field is nil, the
  matcher \<open>FuncType { results: $Results... }\<close> succeeds with one match in which the key
  \<open>Results\<close> is absent, whereas \<open>results: $Results\<close> leaves the key present with the
  value nil.
\<close>

theorem spread_on_nil_field_unbound:
  "map (\<lambda>m. Bindings m ''Results'')
     (MatchBlock noResultFuncType (withMatchers emptyBlock [matchResultsSpread])) = [None] \<and>
   map (\<lambda>m. Bindings m ''Results'')
     (MatchBlock noResultFuncType (withMatchers emptyBlock [matchResultsSimple])) = [Some VNil]"
  by (simp add: matcher_defs noResultFuncType_def matchResultsSpread_def matchResultsSimple_def)

text \<open>
  C3, as amended.  When a SimpleBinding \<open>$X\<close> is matched against a field value and \<open>X\<close> is
  already bound (to \<open>old\<close>), the unification of that field succeeds whatever the two values
  are, and \<open>X\<close> is rebound to the field's value.  Hence a field \<open>name: $X\<close> at the end of
  a field list never makes the unification fail, whatever the fields before it bound \<open>X\<close>
  to.
\<close>

theorem simple_binding_rebinds:
  "matchField n (FieldMatch name (Binding x)) (b(x \<mapsto> old)) = Some (b(x \<mapsto> getField n name)) \<and>
   matchFields n (fs @ [FieldMatch name (Binding x)]) b =
     map_option (\<lambda>b'. b'(x \<mapsto> getField n name)) (matchFields n fs b)"
  by (cases "matchFields n fs b") (simp_all add: matchFields_append Let_def)

text \<open>
  C3 as stated fails: \<open>SelectorExpr { x: $X sel: $X }\<close> unifies with \<open>http.Get\<close>, whose
  two parts are different identifiers; \<open>X\<close> ends up bound to the second one.
\<close>

theorem simple_binding_counterexample:
  "getField httpGet ''x'' \<noteq> getField httpGet ''sel'' \<and>
   matchFields httpGet
     [FieldMatch ''x'' (Binding ''X''), FieldMatch ''sel'' (Binding ''X'')] Map.empty =
   Some [''X'' \<mapsto> VNode (identNode 3 ''Get'')]"
  by (simp add: getField_def FieldByName_def httpGet_def identNode_def)

text \<open>
  C4, as amended.  Unifying a SpreadBinding \<open>$X...\<close> with a present (non-nil) field value
  succeeds whatever the value is, list-like or not, and binds \<open>X\<close> to that value; a field
  \<open>name: $X...\<close> at the end of a field list never makes the unification fail.
\<close>

theorem spread_binding_captures_any:
  "getField n name \<noteq> VNil \<Longrightarrow>
   matchField n (FieldMatch name (Spread x)) b = Some (b(x \<mapsto> getField n name)) \<and>
   matchFields n (fs @ [FieldMatch name (Spread x)]) b =
     map_option (\<lambda>b'. b'(x \<mapsto> getField n name)) (matchFields n fs b)"
  by (cases "matchFields n fs b") (simp_all add: matchFields_append Let_def)

theorem spread_binding_captures_any_witness:
  "getField httpGet ''sel'' \<noteq> VNil \<and>
   matchField httpGet (FieldMatch ''sel'' (Spread ''T'')) Map.empty =
   Some [''T'' \<mapsto> VNode (identNode 3 ''Get'')] \<and>
   matchFields httpGet ([FieldMatch ''x'' (Binding ''T'')] @ [FieldMatch ''sel'' (Spread ''T'')])
     Map.empty = Some [''T'' \<mapsto> VNode (identNode 3 ''Get'')]"
  using spread_binding_captures_any [of httpGet "''sel''" "''T''" Map.empty
      "[FieldMatch ''x'' (Binding ''T'')]"]
  by (simp add: getField_def FieldByName_def httpGet_def identNode_def)

text \<open>
  C4 as stated fails: the \<open>X\<close> of the selector \<open>http.Get\<close> is a single identifier, not a
  list (\<open>toSlice\<close> rejects it), and \<open>x: $P...\<close> still unifies with it.
\<close>

theorem spread_binding_counterexample:
  "toSlice (getField httpGet ''x'') = None \<and>
   matchField httpGet (FieldMatch ''x'' (Spread ''P'')) Map.empty =
   Some [''P'' \<mapsto> VNode (identNode 2 ''http'')]"
  by (simp add: getField_def FieldByName_def httpGet_def identNode_def toSlice_def)

section \<open>The matcher: predicates\<close>

lemma Inspect_subtree:
  "m \<in> set (Inspect n) \<Longrightarrow> set (Inspect m) \<subseteq> set (Inspect n)"
  "m \<in> set (InspectVal v) \<Longrightarrow> set (Inspect m) \<subseteq> set (InspectVal v)"
  "m \<in> set (InspectVals vs) \<Longrightarrow> set (Inspect m) \<subseteq> set (InspectVals vs)"
  "m \<in> set (InspectFields fs) \<Longrightarrow> set (Inspect m) \<subseteq> set (InspectFields fs)"
  by (induction n and v and vs and fs rule: Inspect_InspectVal_InspectVals_InspectFields.induct)
     auto

text \<open>
  C7.  \<open>Contains\<close> is monotonic in its scope: if \<open>n\<close> is a node of the subtree rooted at
  \<open>n'\<close> and the predicate holds with its binding mapped to \<open>n\<close>, then it holds with the
  binding mapped to \<open>n'\<close> (whatever else the two binding environments contain).
\<close>

theorem Contains_monotonic:
  assumes "n \<in> set (Inspect n')"
    and "EvalPredicate (ContainsP pred) (b(ContainsBinding pred \<mapsto> VNode n))"
  shows "EvalPredicate (ContainsP pred) (b'(ContainsBinding pred \<mapsto> VNode n'))"
  using assms Inspect_subtree(1) [of n n']
  by (auto simp: evalContains_def list_ex_iff)

theorem Contains_monotonic_witness:
  "AstNode 3 ''FuncDecl'' [(''Name'', VNode (identNode 4 ''f''))] \<in> set (Inspect oneFuncFile) \<and>
   EvalPredicate (ContainsP containsIdentF)
     (Map.empty(ContainsBinding containsIdentF \<mapsto>
        VNode (AstNode 3 ''FuncDecl'' [(''Name'', VNode (identNode 4 ''f''))]))) \<and>
   EvalPredicate (ContainsP containsIdentF)
     (Map.empty(ContainsBinding containsIdentF \<mapsto> VNode oneFuncFile))"
proof -
  have sub: "AstNode 3 ''FuncDecl'' [(''Name'', VNode (identNode 4 ''f''))] \<in> set (Inspect oneFuncFile)"
    by (simp add: oneFuncFile_def identNode_def)
  have small: "EvalPredicate (ContainsP containsIdentF)
     (Map.empty(ContainsBinding containsIdentF \<mapsto>
        VNode (AstNode 3 ''FuncDecl'' [(''Name'', VNode (identNode 4 ''f''))])))"
    by (simp add: evalContains_def containsIdentF_def identNode_def nodeTypeMatches_def
        getField_def FieldByName_def matchExact_def stringField_def Trim_def)
  from Contains_monotonic [OF sub small, of Map.empty] sub small show ?thesis
    by simp
qed

section \<open>The template engine: interpolation\<close>

lemma regexMatchAt_shorter:
  assumes "regexMatchAt text = Some (name, transform, rest)"
  shows "length rest < length text"
proof -
  from assms obtain t1 d t2 where t: "text = CHR ''$'' # CHR ''{'' # t1"
    and d: "dropWhile isWord t1 = d # t2"
    and r: "(d = CHR ''}'' \<and> rest = t2) \<or> matchTransform (d # t2) = Some (transform, rest)"
    by (auto simp: regexMatchAt_def split: list.splits if_splits option.splits)
  have "length rest \<le> length (d # t2)"
  proof (cases "d = CHR ''}'' \<and> rest = t2")
    case True
    then show ?thesis by simp
  next
    case False
    with r have "matchTransform (d # t2) = Some (transform, rest)"
      by simp
    then obtain u where a: "dropWhile isSpace (d # t2) = CHR ''|'' # u"
      and b: "dropWhile isWord (dropWhile isSpace u) = CHR ''}'' # rest"
      by (auto simp: matchTransform_def split: list.splits if_splits)
    have "length rest < length (dropWhile isWord (dropWhile isSpace u))"
      using b by simp
    also have "\<dots> \<le> length (dropWhile isSpace u)"
      by (rule length_dropWhile_le)
    also have "\<dots> \<le> length u"
      by (rule length_dropWhile_le)
    also have "\<dots> < length (dropWhile isSpace (d # t2))"
      using a by simp
    also have "\<dots> \<le> length (d # t2)"
      by (rule length_dropWhile_le)
    finally show ?thesis by simp
  qed
  also have "\<dots> \<le> length t1"
    using length_dropWhile_le [of isWord t1] d by simp
  finally show ?thesis
    using t by simp
qed

lemma takeWhile_stop: "\<not> P y \<Longrightarrow> takeWhile P (xs @ y # ys) = takeWhile P xs"
  by (induction xs) auto

lemma dropWhile_stop: "\<not> P y \<Longrightarrow> dropWhile P (xs @ y # ys) = dropWhile P xs @ y # ys"
  by (induction xs) auto

lemma dollar_not [simp]: "\<not> isWord (CHR ''$'')" "\<not> isSpace (CHR ''$'')"
  by (simp_all add: isWord_def isSpace_def lowerLetters_def upperLetters_def)

lemma brace_not [simp]: "\<not> isWord (CHR ''}'')"
  by (simp_all add: isWord_def isSpace_def lowerLetters_def upperLetters_def)

lemma matchTransform_dollar:
  "matchTransform (s @ CHR ''$'' # t) =
   map_option (\<lambda>(tr, rest). (tr, rest @ CHR ''$'' # t)) (matchTransform s)"
proof (cases "dropWhile isSpace s")
  case Nil
  show ?thesis
    by (simp add: matchTransform_def dropWhile_stop Nil)
next
  case sp: (Cons p t1)
  show ?thesis
  proof (cases "dropWhile isWord (dropWhile isSpace t1)")
    case Nil
    show ?thesis
      by (simp add: matchTransform_def dropWhile_stop takeWhile_stop sp Nil)
  next
    case (Cons q rest)
    show ?thesis
      by (simp add: matchTransform_def dropWhile_stop takeWhile_stop sp Cons)
  qed
qed

lemma regexMatchAt_dollar:
  assumes "s \<noteq> []"
  shows "regexMatchAt (s @ CHR ''$'' # t) =
   map_option (\<lambda>(name, tr, rest). (name, tr, rest @ CHR ''$'' # t)) (regexMatchAt s)"
proof (cases s)
  case Nil
  with assms show ?thesis by simp
next
  case s1: (Cons c1 s')
  show ?thesis
  proof (cases s')
    case Nil
    then show ?thesis using s1 by (simp add: regexMatchAt_def)
  next
    case s2: (Cons c2 t1)
    show ?thesis
    proof (cases "dropWhile isWord t1")
      case Nil
      show ?thesis
        by (simp add: regexMatchAt_def dropWhile_stop takeWhile_stop matchTransform_def s1 s2 Nil)
    next
      case (Cons d t2)
      have "matchTransform (d # t2 @ CHR ''$'' # t) =
            map_option (\<lambda>(tr, rest). (tr, rest @ CHR ''$'' # t)) (matchTransform (d # t2))"
        using matchTransform_dollar [of "d # t2" t] by simp
      then show ?thesis
        by (auto simp: regexMatchAt_def dropWhile_stop takeWhile_stop s1 s2 Cons
            split: option.splits)
    qed
  qed
qed

lemma regexMatchAt_occurrence:
  assumes "name \<noteq> []" and "list_all isWord name"
  shows "regexMatchAt (CHR ''$'' # CHR ''{'' # name @ CHR ''}'' # post) = Some (name, [], post)"
proof -
  have "takeWhile isWord (name @ CHR ''}'' # post) = name"
    using assms(2) by (simp add: takeWhile_stop takeWhile_eq_all_conv list_all_iff)
  moreover have "dropWhile isWord (name @ CHR ''}'' # post) = CHR ''}'' # post"
    using assms(2) by (simp add: dropWhile_stop dropWhile_eq_Nil_conv list_all_iff)
  ultimately show ?thesis
    using assms(1) by (simp add: regexMatchAt_def)
qed

lemma take_append_le: "n \<le> length xs \<Longrightarrow> take n (xs @ ys) = take n xs"
  by simp

lemma take_prefix_len: "take (length (xs @ ys) - length ys) (xs @ ys) = xs"
  by simp

text \<open>
  C9.  Let \<open>name\<close> be a non-empty word.  Wherever \<open>${name}\<close> occurs in a template, the
  output is the interpolation of the text before it, then the occurrence's replacement,
  then the interpolation of the text after it.  The replacement of an unbound name is the
  literal \<open>${name}\<close>; the replacement of a bound name is the string of its value, which is
  put into the output as it is and never scanned for further patterns.
\<close>

theorem interpolate_occurrence:
  assumes "name \<noteq> []" and "list_all isWord name"
  shows "interpolate G (pre @ ''${'' @ name @ ''}'' @ post) b =
         interpolate G pre b @
         (case b name of None \<Rightarrow> ''${'' @ name @ ''}'' | Some v \<Rightarrow> bindingToString G v) @
         interpolate G post b"
proof (induction pre rule: length_induct)
  case (1 pre)
  let ?occ = "''${'' @ name @ ''}''"
  let ?tail = "''${'' @ name @ ''}'' @ post"
  let ?mid = "case b name of None \<Rightarrow> ?occ | Some v \<Rightarrow> bindingToString G v"
  show ?case
  proof (cases pre)
    case Nil
    have m: "regexMatchAt (CHR ''$'' # CHR ''{'' # name @ CHR ''}'' # post) = Some (name, [], post)"
      by (rule regexMatchAt_occurrence [OF assms])
    have tk: "take (length (?occ @ post) - length post) (?occ @ post) = ?occ"
      by (rule take_prefix_len)
    show ?thesis
      using Nil m tk by (simp add: replaceMatch_def split: option.splits)
  next
    case (Cons c cs)
    have d: "regexMatchAt ((c # cs) @ CHR ''$'' # (CHR ''{'' # name @ ''}'' @ post)) =
             map_option (\<lambda>(n, tr, rest). (n, tr, rest @ CHR ''$'' # (CHR ''{'' # name @ ''}'' @ post)))
               (regexMatchAt (c # cs))"
      by (rule regexMatchAt_dollar) simp
    show ?thesis
    proof (cases "regexMatchAt (c # cs)")
      case None
      have "length cs < length pre" using Cons by simp
      with 1 have "interpolate G (cs @ ?tail) b =
           interpolate G cs b @ ?mid @ interpolate G post b" by blast
      then show ?thesis using Cons None d by simp
    next
      case (Some r)
      obtain n tr rest where r: "r = (n, tr, rest)" by (cases r)
      have sh: "length rest < length pre"
        using regexMatchAt_shorter [of "c # cs" n tr rest] Some r Cons by simp
      with 1 have ih: "interpolate G (rest @ ?tail) b =
           interpolate G rest b @ ?mid @ interpolate G post b" by blast
      have tk: "take (length (c # cs @ ?tail) - length (rest @ ?tail)) (c # cs @ ?tail)
               = take (length (c # cs) - length rest) (c # cs)"
        using take_append_le [of "length (c # cs) - length rest" "c # cs" ?tail] by simp
      show ?thesis
        using Cons Some r d ih tk by simp
    qed
  qed
qed

theorem interpolate_occurrence_witness:
  "''B'' \<noteq> [] \<and> list_all isWord ''B'' \<and>
   interpolate testEnv (''x ${A} '' @ ''${'' @ ''B'' @ ''}'' @ ''${C}'')
     [''A'' \<mapsto> VString ''${C}'', ''C'' \<mapsto> VString ''zz''] = ''x ${C} ${B}zz''"
  using interpolate_occurrence [of "''B''" testEnv "''x ${A} ''" "''${C}''"
      "[''A'' \<mapsto> VString ''${C}'', ''C'' \<mapsto> VString ''zz'']"]
  by (simp add: regexMatchAt_def replaceMatch_def bindingToString_def isWord_def
      upperLetters_def lowerLetters_def)

section \<open>The executor: running the actions\<close>

lemma runApplications_append:
  "runApplications G (xs @ ys) result e =
     (case runApplications G xs result e of
        (Inl err, e') \<Rightarrow> (Inl err, e')
      | (Inr result', e') \<Rightarrow> runApplications G ys result' e')"
  by (induction xs arbitrary: result e) (auto split: prod.splits sum.splits)

lemma executeMatches_run:
  "executeMatches G action matches result e = runApplications G (map (Pair action) matches) result e"
  by (induction matches arbitrary: result e) (auto split: prod.splits sum.splits)

lemma executeActions_run:
  "executeActions G actions matches result e =
   runApplications G (concat (map (\<lambda>action. map (Pair action) matches) actions)) result e"
  by (induction actions arbitrary: result e)
     (auto simp: runApplications_append executeMatches_run split: prod.splits sum.splits)

lemma renameThenDelete_matches: "MatchBlock oneFuncFile renameThenDelete = [funcMatch]"
  by (simp add: matcher_defs renameThenDelete_def oneFuncFile_def matchFuncDecl_def funcMatch_def)

text \<open>
  C5, as amended.  The action applications of a run are carried out in order.  If the
  applications before one have succeeded and that one fails, \<open>Execute\<close> stops there and
  returns the error, wrapped with the kind of the action, and no \<open>Result\<close>: the
  applications after it are not carried out, imports are not reconciled and no modified
  source is rendered.  The executor's tree is left as the earlier applications (and the
  failed one, up to its failure) have mutated it.
\<close>

theorem Execute_stops_at_first_error:
  assumes "applications block matches = before @ (action, match) # after"
    and "runApplications G before emptyResult e = (Inr result1, e1)"
    and "executeAction G action match result1 e1 = (Inl err, e2)"
  shows "Execute G block matches e = (Inl err, e2)"
  using assms
  by (simp add: Execute_def executeActions_run applications_def runApplications_append
      emptyResult_def)

theorem Execute_stops_at_first_error_witness:
  "applications renameThenDelete [funcMatch] =
     [(Patch renameToG, funcMatch)] @ (Delete removeF, funcMatch) # [] \<and>
   runApplications testEnv [(Patch renameToG, funcMatch)] emptyResult (startState oneFuncFile) =
     (Inr (emptyResult\<lparr>Applied := [''patch'']\<rparr>), (startState oneFuncFile)\<lparr>e_file := renamedFile\<rparr>) \<and>
   executeAction testEnv (Delete removeF) funcMatch (emptyResult\<lparr>Applied := [''patch'']\<rparr>)
       ((startState oneFuncFile)\<lparr>e_file := renamedFile\<rparr>) =
     (Inl (DeleteFailed DeleteNotImplemented), (startState oneFuncFile)\<lparr>e_file := renamedFile\<rparr>) \<and>
   Execute testEnv renameThenDelete [funcMatch] (startState oneFuncFile) =
     (Inl (DeleteFailed DeleteNotImplemented), (startState oneFuncFile)\<lparr>e_file := renamedFile\<rparr>)"
proof -
  have h1: "applications renameThenDelete [funcMatch] =
     [(Patch renameToG, funcMatch)] @ (Delete removeF, funcMatch) # []"
    by (simp add: applications_def renameThenDelete_def)
  have h2: "runApplications testEnv [(Patch renameToG, funcMatch)] emptyResult (startState oneFuncFile) =
     (Inr (emptyResult\<lparr>Applied := [''patch'']\<rparr>), (startState oneFuncFile)\<lparr>e_file := renamedFile\<rparr>)"
    by (simp add: executor_defs FieldByName_def identNode_def renameToG_def funcMatch_def
        oneFuncFile_def renamedFile_def)
  have h3: "executeAction testEnv (Delete removeF) funcMatch (emptyResult\<lparr>Applied := [''patch'']\<rparr>)
       ((startState oneFuncFile)\<lparr>e_file := renamedFile\<rparr>) =
     (Inl (DeleteFailed DeleteNotImplemented), (startState oneFuncFile)\<lparr>e_file := renamedFile\<rparr>)"
    by (simp add: executeAction_def executeDelete_def)
  from Execute_stops_at_first_error [OF h1 h2 h3] h1 h2 h3 show ?thesis
    by simp
qed

text \<open>
  C5 as stated fails: the block renames the matched function (which succeeds and changes
  the tree) and then has a delete action (which fails); \<open>Execute\<close> returns the error and
  produces no result in which the renaming could be reflected.
\<close>

theorem Execute_error_counterexample:
  "MatchBlock oneFuncFile renameThenDelete = [funcMatch] \<and>
   Execute testEnv renameThenDelete [funcMatch] (startState oneFuncFile) =
     (Inl (DeleteFailed DeleteNotImplemented), (startState oneFuncFile)\<lparr>e_file := renamedFile\<rparr>)"
  by (simp add: renameThenDelete_matches)
     (simp add: executor_defs FieldByName_def identNode_def renameThenDelete_def renameToG_def
        removeF_def funcMatch_def oneFuncFile_def renamedFile_def)

text \<open>
  The import-to-add set only grows during a run, and only by \<open>context\<close> and \<open>time\<close>; in
  particular no name in it begins or ends with a double quote.
\<close>

lemma grows_refl [simp]: "grows e e"
  by (auto simp: grows_def)

lemma grows_file [simp]: "grows e (e\<lparr>e_file := f\<rparr>)" "grows e (e\<lparr>e_next := a\<rparr>)"
  by (auto simp: grows_def)

lemma grows_trans: "grows e e1 \<Longrightarrow> grows e1 e2 \<Longrightarrow> grows e e2"
  by (auto simp: grows_def)

lemma executeSet_grows: "executeSet st bindings e = (x, e') \<Longrightarrow> grows e e'"
  by (auto simp: executeSet_def grows_def addImport_def Let_def
      split: option.splits if_splits Expr.splits prod.splits)

lemma executePatchStmt_grows: "executePatchStmt stmt bindings e = (x, e') \<Longrightarrow> grows e e'"
  by (cases stmt)
     (auto simp: executePatchStmt_def dest: executeSet_grows split: option.splits)

lemma executePatchStmts_grows: "executePatchStmts stmts bindings e = (x, e') \<Longrightarrow> grows e e'"
proof (induction stmts arbitrary: e)
  case Nil
  then show ?case by simp
next
  case (Cons s stmts)
  obtain y e1 where s: "executePatchStmt s bindings e = (y, e1)"
    by (cases "executePatchStmt s bindings e")
  from executePatchStmt_grows [OF s] have g: "grows e e1" .
  show ?case
  proof (cases y)
    case None
    with Cons.prems s have "executePatchStmts stmts bindings e1 = (x, e')" by simp
    from Cons.IH [OF this] g show ?thesis by (rule grows_trans [rotated])
  next
    case (Some err)
    with Cons.prems s g show ?thesis by simp
  qed
qed

lemma executePatchLoop_grows: "executePatchLoop stmts bindings e = (x, e') \<Longrightarrow> grows e e'"
proof (induction stmts arbitrary: e)
  case Nil
  then show ?case by simp
next
  case (Cons s stmts)
  show ?case
  proof (cases s)
    case (PIf c)
    show ?thesis
    proof (cases "EvalPredicate (Condition c) (liveBindings e bindings)")
      case True
      obtain y e1 where n: "executePatchStmts (CondStmts c) bindings e = (y, e1)"
        by (cases "executePatchStmts (CondStmts c) bindings e")
      from executePatchStmts_grows [OF n] have g: "grows e e1" .
      show ?thesis
      proof (cases y)
        case None
        with Cons.prems PIf True n have "executePatchLoop stmts bindings e1 = (x, e')" by simp
        from Cons.IH [OF this] g show ?thesis by (rule grows_trans [rotated])
      next
        case (Some err)
        with Cons.prems PIf True n g show ?thesis by simp
      qed
    next
      case False
      with Cons.prems PIf have "executePatchLoop stmts bindings e = (x, e')" by simp
      from Cons.IH [OF this] show ?thesis .
    qed
  next
    case other: (PSet st)
    obtain y e1 where s: "executePatchStmt s bindings e = (y, e1)"
      by (cases "executePatchStmt s bindings e")
    from executePatchStmt_grows [OF s] have g: "grows e e1" .
    show ?thesis
    proof (cases y)
      case None
      with Cons.prems other s have "executePatchLoop stmts bindings e1 = (x, e')" by simp
      from Cons.IH [OF this] g show ?thesis by (rule grows_trans [rotated])
    next
      case (Some err)
      with Cons.prems other s g show ?thesis by simp
    qed
  next
    case other: (PRename st)
    obtain y e1 where s: "executePatchStmt s bindings e = (y, e1)"
      by (cases "executePatchStmt s bindings e")
    from executePatchStmt_grows [OF s] have g: "grows e e1" .
    show ?thesis
    proof (cases y)
      case None
      with Cons.prems other s have "executePatchLoop stmts bindings e1 = (x, e')" by simp
      from Cons.IH [OF this] g show ?thesis by (rule grows_trans [rotated])
    next
      case (Some err)
      with Cons.prems other s g show ?thesis by simp
    qed
  next
    case other: (PRetype st)
    with Cons.prems show ?thesis by (simp add: executePatchStmt_def)
  qed
qed

lemma executeInsert_grows: "executeInsert G ins bindings e = (x, e') \<Longrightarrow> grows e e'"
  by (auto simp: executeInsert_def grows_def addImport_def Let_def
      split: option.splits if_splits sum.splits prod.splits)

lemma executeAction_grows: "executeAction G action match result e = (x, e') \<Longrightarrow> grows e e'"
  by (cases action)
     (auto simp: executeAction_def executePatch_def executeDelete_def Let_def
           dest: executeInsert_grows executePatchLoop_grows
           split: prod.splits option.splits sum.splits)

lemma runApplications_grows: "runApplications G apps result e = (x, e') \<Longrightarrow> grows e e'"
proof (induction apps arbitrary: result e)
  case Nil
  then show ?case by simp
next
  case (Cons app apps)
  obtain y e1 where a: "executeAction G (fst app) (snd app) result e = (y, e1)"
    by (cases "executeAction G (fst app) (snd app) result e")
  from executeAction_grows [OF a] have g: "grows e e1" .
  show ?case
  proof (cases y)
    case (Inl err)
    with Cons.prems a g show ?thesis by simp
  next
    case (Inr r)
    with Cons.prems a have "runApplications G apps r e1 = (x, e')" by simp
    from Cons.IH [OF this] g show ?thesis by (rule grows_trans [rotated])
  qed
qed

lemma grows_unquoted:
  "grows e e' \<Longrightarrow> \<forall>imp \<in> e_imports e. unquoted imp \<Longrightarrow> \<forall>imp \<in> e_imports e'. unquoted imp"
  by (auto simp: grows_def unquoted_def)

section \<open>The executor: emit\<close>

lemma executeMatches_emit:
  "executeMatches G (Emit emit) matches result e = (Inr result', e') \<Longrightarrow>
   e' = e \<and>
   ModifiedSource result' = ModifiedSource result \<and>
   Applied result' = Applied result @ replicate (length matches) (''emit:'' @ Trim (File emit) [CHR 0x22]) \<and>
   (if matches = [] then EmittedFiles result' = EmittedFiles result
    else \<exists>content. executeEmit G emit (Bindings (last matches)) e = Inr content \<and>
         EmittedFiles result' = (EmittedFiles result)(Trim (File emit) [CHR 0x22] \<mapsto> content))"
proof (induction matches arbitrary: result)
  case Nil
  then show ?case by simp
next
  case (Cons m ms)
  from Cons.prems obtain content where c: "executeEmit G emit (Bindings m) e = Inr content"
    by (auto simp: executeAction_def split: sum.splits)
  let ?r1 = "result\<lparr>EmittedFiles := (EmittedFiles result)(Trim (File emit) [CHR 0x22] \<mapsto> content),
                     Applied := Applied result @ [''emit:'' @ Trim (File emit) [CHR 0x22]]\<rparr>"
  have step: "executeMatches G (Emit emit) ms ?r1 e = (Inr result', e')"
    using Cons.prems c by (simp add: executeAction_def Let_def)
  note ih = Cons.IH [OF step]
  show ?case
  proof (cases ms)
    case Nil
    then show ?thesis using ih c by (simp add: replicate_append_same)
  next
    case (Cons m' ms')
    then show ?thesis using ih by (auto simp: replicate_append_same)
  qed
qed

lemma emitNames_matches: "MatchBlock oneFuncFile emitNames = identMatches"
  by (simp add: matcher_defs emitNames_def oneFuncFile_def matchIdent_def identMatches_def)

lemma emitNames_run:
  "Execute testEnv emitNames identMatches (startState oneFuncFile) =
     (Inr \<lparr>ModifiedSource = ''<source>'', EmittedFiles = [''out.txt'' \<mapsto> ''name f''],
           Applied = [''emit:out.txt'', ''emit:out.txt'']\<rparr>, startState oneFuncFile)"
  by (simp add: executor_defs Let_def emitNames_def emitOut_def identMatches_def
      regexMatchAt_def replaceMatch_def bindingToString_def isWord_def
      upperLetters_def lowerLetters_def)

text \<open>
  C10.  When the only action of a block is an emit action and it is executed over a
  non-empty list of matches, the result's \<open>EmittedFiles\<close> has exactly one entry, for the
  emit's file name (quotes stripped), whose content is what the emit produces from the
  bindings of the last match, and \<open>Applied\<close> holds one \<open>emit:<filename>\<close> per match.
\<close>

theorem emit_last_match_wins:
  assumes "Actions block = [Emit emit]" and "matches \<noteq> []"
    and "Execute G block matches e = (Inr result, e')"
  shows "\<exists>content. executeEmit G emit (Bindings (last matches)) e = Inr content \<and>
           EmittedFiles result = [Trim (File emit) [CHR 0x22] \<mapsto> content] \<and>
           Applied result = replicate (length matches) (''emit:'' @ Trim (File emit) [CHR 0x22])"
proof -
  from assms(1,3) obtain r1 e1 where
    m: "executeMatches G (Emit emit) matches emptyResult e = (Inr r1, e1)"
    and r: "EmittedFiles result = EmittedFiles r1" "Applied result = Applied r1"
    by (auto simp: Execute_def emptyResult_def split: prod.splits sum.splits option.splits)
  from executeMatches_emit [OF m] assms(2) r show ?thesis
    by (auto simp: emptyResult_def)
qed

theorem emit_last_match_wins_witness:
  "Actions emitNames = [Emit emitOut] \<and> identMatches \<noteq> [] \<and>
   Execute testEnv emitNames identMatches (startState oneFuncFile) =
     (Inr \<lparr>ModifiedSource = ''<source>'', EmittedFiles = [''out.txt'' \<mapsto> ''name f''],
           Applied = [''emit:out.txt'', ''emit:out.txt'']\<rparr>, startState oneFuncFile) \<and>
   executeEmit testEnv emitOut (Bindings (last identMatches)) (startState oneFuncFile) = Inr ''name f'' \<and>
   replicate (length identMatches) (''emit:'' @ Trim (File emitOut) [CHR 0x22]) =
     [''emit:out.txt'', ''emit:out.txt'']"
proof -
  have h1: "Actions emitNames = [Emit emitOut]"
    by (simp add: emitNames_def)
  have h2: "identMatches \<noteq> []"
    by (simp add: identMatches_def)
  from emit_last_match_wins [OF h1 h2 emitNames_run] h1 h2 emitNames_run
  show ?thesis
    by (auto simp: identMatches_def emitOut_def Trim_def quote_def fun_upd_same
             dest: fun_cong [where x = "''out.txt''"])
qed

section \<open>The executor: imports\<close>

lemma map_of_setAssoc:
  "map_of (setAssoc name v fs) name' = (if name' = name then Some v else map_of fs name')"
  by (induction fs) auto

lemma setAssoc_same: "map_of fs name = Some v \<Longrightarrow> setAssoc name v fs = fs"
  by (induction fs) (auto split: if_splits)

lemma FieldByName_setField [simp]:
  "FieldByName (setField name v n) name' = (if name' = name then Some v else FieldByName n name')"
  by (simp add: FieldByName_def setField_def map_of_setAssoc)

lemma kind_setField [simp]: "kind (setField name v n) = kind n"
  by (simp add: setField_def)

lemma setField_same: "FieldByName n name = Some v \<Longrightarrow> setField name v n = n"
  by (cases n) (simp add: setField_def FieldByName_def setAssoc_same)

lemma sliceField_setField_other [simp]:
  "name' \<noteq> name \<Longrightarrow> sliceField (setField name v n) name' = sliceField n name'"
  by (simp add: sliceField_def)

lemma sliceField_setField_slice [simp]:
  "sliceField (setField name (VSlice xs) n) name = VSlice xs"
  by (simp add: sliceField_def)

lemma isImportDecl_setField [simp]:
  "name \<noteq> ''Tok'' \<Longrightarrow> isImportDecl (VNode (setField name v n)) = isImportDecl (VNode n)"
  by (simp add: isImportDecl_def)

lemma findImportDecl_Some:
  "findImportDecl ds = Some (before, gd, after) \<Longrightarrow>
   ds = before @ VNode gd # after \<and> (\<forall>d \<in> set before. \<not> isImportDecl d) \<and> isImportDecl (VNode gd)"
proof (induction ds arbitrary: before)
  case Nil
  then show ?case by simp
next
  case (Cons d ds)
  show ?case
  proof (cases "isImportDecl d")
    case True
    then obtain n where "d = VNode n" by (cases d) (auto simp: isImportDecl_def)
    with True Cons.prems show ?thesis by (simp add: toNode_def)
  next
    case False
    with Cons.prems obtain b' where f: "findImportDecl ds = Some (b', gd, after)" and b: "before = d # b'"
      by (auto split: option.splits)
    from Cons.IH [OF f] False b show ?thesis by simp
  qed
qed

lemma findImportDecl_split:
  "\<forall>d \<in> set before. \<not> isImportDecl d \<Longrightarrow> isImportDecl (VNode gd) \<Longrightarrow>
   findImportDecl (before @ VNode gd # after) = Some (before, gd, after)"
  by (induction before) (simp_all add: toNode_def)

lemma existingImports_append:
  "existingImports (xs @ ys) =
     (case existingImports xs of
        None \<Rightarrow> None
      | Some p \<Rightarrow> (case existingImports ys of None \<Rightarrow> None | Some q \<Rightarrow> Some (p @ q)))"
  by (induction xs) (auto split: option.splits val.splits)

lemma existingImports_new:
  "existingImports [VNode (newImportSpec a imp)] = Some [Trim (quote imp) [CHR 0x22]]"
  by (simp add: newImportSpec_def asKind_def FieldByName_def stringField_def)

lemma dropWhile_unquoted:
  "take 1 xs \<noteq> [CHR 0x22] \<Longrightarrow> dropWhile (\<lambda>c. c = CHR 0x22) xs = xs"
  by (cases xs) auto

lemma Trim_quoted: "unquoted imp \<Longrightarrow> Trim (quote imp) [CHR 0x22] = imp"
proof (cases imp)
  case Nil
  then show ?thesis by (simp add: Trim_def quote_def)
next
  case (Cons c cs)
  assume u: "unquoted imp"
  have a: "dropWhile (\<lambda>c. c = CHR 0x22) (imp @ [CHR 0x22]) = imp @ [CHR 0x22]"
    using u Cons by (simp add: unquoted_def)
  have b: "dropWhile (\<lambda>c. c = CHR 0x22) (rev imp) = rev imp"
    using u by (intro dropWhile_unquoted) (simp add: unquoted_def)
  show ?thesis
    by (simp add: Trim_def quote_def a b)
qed

lemma addMissing_isImportDecl:
  "isImportDecl (VNode (fst (addMissing ex keys g a))) = isImportDecl (VNode g)"
  by (induction keys arbitrary: g a) auto

lemma addMissing_paths:
  assumes "existingImports (elems (sliceField g ''Specs'')) = Some ex0"
  shows "existingImports (elems (sliceField (fst (addMissing ex keys g a)) ''Specs''))
           = Some (ex0 @ map (\<lambda>k. Trim (quote k) [CHR 0x22]) (filter (\<lambda>k. k \<notin> set ex) keys))"
  using assms
proof (induction keys arbitrary: g a ex0)
  case Nil
  then show ?case by simp
next
  case (Cons k keys)
  show ?case
  proof (cases "k \<in> set ex")
    case True
    with Cons show ?thesis by simp
  next
    case False
    let ?g = "setField ''Specs'' (appendSlice (sliceField g ''Specs'') [VNode (newImportSpec a k)]) g"
    have "existingImports (elems (sliceField ?g ''Specs'')) = Some (ex0 @ [Trim (quote k) [CHR 0x22]])"
      using Cons.prems
      by (simp add: appendSlice_def elems_def existingImports_append existingImports_new
               del: existingImports.simps)
    from Cons.IH [OF this, of "a + 2"] False show ?thesis by simp
  qed
qed

text \<open>
  What \<open>addImports\<close> does when there is something to import: the file's first import
  declaration afterwards holds the paths that were there, followed by one path for every
  key that was not among them.
\<close>

lemma addImports_Some:
  assumes ne: "e_imports e \<noteq> {}" and run: "addImports keys e = Some e'"
  shows "\<exists>before gd after a' existing.
           (\<forall>d \<in> set before. \<not> isImportDecl d) \<and> isImportDecl (VNode gd) \<and>
           existingImports (elems (sliceField gd ''Specs'')) =
             Some (existing @ map (\<lambda>k. Trim (quote k) [CHR 0x22])
                                  (filter (\<lambda>k. k \<notin> set existing) keys)) \<and>
           e' = e\<lparr>e_file := setField ''Decls'' (VSlice (before @ VNode (ensureParens gd) # after))
                               (e_file e),
                  e_next := a'\<rparr>"
proof -
  let ?decls = "elems (sliceField (e_file e) ''Decls'')"
  obtain before gd after a where sel:
    "(case findImportDecl ?decls of
        Some (before, gd, after) \<Rightarrow> (before, gd, after, e_next e)
      | None \<Rightarrow> ([], newImportDecl (e_next e), ?decls, Suc (e_next e))) = (before, gd, after, a)"
    by (metis prod_cases4)
  have pos: "(\<forall>d \<in> set before. \<not> isImportDecl d) \<and> isImportDecl (VNode gd)"
  proof (cases "findImportDecl ?decls")
    case None
    with sel show ?thesis
      by (auto simp: newImportDecl_def isImportDecl_def FieldByName_def)
  next
    case (Some t)
    obtain b g af where t: "t = (b, g, af)" by (cases t)
    with Some sel findImportDecl_Some [of ?decls b g af] show ?thesis by auto
  qed
  from run ne sel obtain existing where
    ex: "existingImports (elems (sliceField gd ''Specs'')) = Some existing"
    by (auto simp: addImports_def Let_def split: option.splits)
  obtain gd' a' where am: "addMissing existing keys gd a = (gd', a')"
    by (cases "addMissing existing keys gd a")
  have e': "e' = e\<lparr>e_file := setField ''Decls'' (VSlice (before @ VNode (ensureParens gd') # after))
                                (e_file e),
                   e_next := a'\<rparr>"
    using run ne sel ex am by (simp add: addImports_def Let_def)
  have imp': "isImportDecl (VNode gd')"
    using addMissing_isImportDecl [of existing keys gd a] am pos by simp
  from addMissing_paths [OF ex, of existing keys a] am
  have ex': "existingImports (elems (sliceField gd' ''Specs'')) =
             Some (existing @ map (\<lambda>k. Trim (quote k) [CHR 0x22])
                                  (filter (\<lambda>k. k \<notin> set existing) keys))"
    by simp
  from pos imp' ex' e' show ?thesis by blast
qed

lemma addMissing_none: "set keys \<subseteq> set ex \<Longrightarrow> addMissing ex keys g a = (g, a)"
  by (induction keys) auto

lemma sliceField_ensureParens [simp]: "sliceField (ensureParens g) ''Specs'' = sliceField g ''Specs''"
  by (simp add: ensureParens_def)

lemma isImportDecl_ensureParens [simp]:
  "isImportDecl (VNode (ensureParens g)) = isImportDecl (VNode g)"
  by (simp add: ensureParens_def)

lemma ensureParens_idem: "ensureParens (ensureParens g) = ensureParens g"
proof (cases "length (elems (sliceField g ''Specs'')) > 1")
  case True
  let ?g = "setField ''Rparen'' (VInt 1) (setField ''Lparen'' (VInt 1) g)"
  have "setField ''Lparen'' (VInt 1) ?g = ?g" by (rule setField_same) simp
  moreover have "setField ''Rparen'' (VInt 1) ?g = ?g" by (rule setField_same) simp
  ultimately show ?thesis using True by (simp add: ensureParens_def)
next
  case False
  then show ?thesis by (simp add: ensureParens_def)
qed

lemma twoImportsDone_eq: "addImports [''context'', ''time''] twoImportsState = Some twoImportsDone"
  by (simp add: twoImportsDone_def twoImportsState_def)
     (simp add: executor_defs FieldByName_def identNode_def Let_def paramsFile_def)

lemma twoImportsDone_imports: "fileImports (e_file twoImportsDone) = Some [''context'', ''time'']"
  by (simp add: twoImportsDone_def twoImportsState_def)
     (simp add: executor_defs FieldByName_def identNode_def Let_def paramsFile_def)

text \<open>
  C8.  Import reconciliation is idempotent: on an import-to-add set none of whose names
  begins or ends with a double quote (the executor only ever adds \<open>context\<close> and \<open>time\<close>),
  whatever the order in which the two runs enumerate the set, the second run leaves the
  state of the first run unchanged: same import declaration, no spec appended again.
\<close>

theorem addImports_idempotent:
  assumes keys: "set keys = e_imports e" and keys': "set keys' = e_imports e"
    and unq: "\<forall>imp \<in> e_imports e. unquoted imp"
    and run: "addImports keys e = Some e1"
  shows "addImports keys' e1 = Some e1"
proof (cases "e_imports e = {}")
  case True
  with run show ?thesis by (simp add: addImports_def)
next
  case False
  from addImports_Some [OF False run] obtain before gd after a' existing where
    pos: "\<forall>d \<in> set before. \<not> isImportDecl d" "isImportDecl (VNode gd)"
    and ex: "existingImports (elems (sliceField gd ''Specs'')) =
             Some (existing @ map (\<lambda>k. Trim (quote k) [CHR 0x22])
                                  (filter (\<lambda>k. k \<notin> set existing) keys))"
    and e1: "e1 = e\<lparr>e_file := setField ''Decls'' (VSlice (before @ VNode (ensureParens gd) # after))
                                (e_file e),
                   e_next := a'\<rparr>"
    by blast
  let ?file1 = "setField ''Decls'' (VSlice (before @ VNode (ensureParens gd) # after)) (e_file e)"
  let ?paths = "existing @ filter (\<lambda>k. k \<notin> set existing) keys"
  have "map (\<lambda>k. Trim (quote k) [CHR 0x22]) (filter (\<lambda>k. k \<notin> set existing) keys) =
        filter (\<lambda>k. k \<notin> set existing) keys"
    using unq keys by (intro map_idI) (simp add: Trim_quoted)
  with ex have ex': "existingImports (elems (sliceField gd ''Specs'')) = Some ?paths"
    by simp
  have find1: "findImportDecl (elems (sliceField (e_file e1) ''Decls'')) =
               Some (before, ensureParens gd, after)"
    using pos by (simp add: e1 elems_def findImportDecl_split)
  have sub: "set keys' \<subseteq> set ?paths"
    using keys keys' by auto
  have am1: "addMissing ?paths keys' (ensureParens gd) a' = (ensureParens gd, a')"
    by (rule addMissing_none [OF sub])
  have same: "setField ''Decls'' (VSlice (before @ VNode (ensureParens gd) # after)) ?file1 = ?file1"
    by (rule setField_same) simp
  have ne: "e_imports e1 \<noteq> {}"
    using False e1 by simp
  show ?thesis
    using ne find1 ex' am1 same
    by (simp add: addImports_def Let_def ensureParens_idem e1)
qed

theorem addImports_idempotent_witness:
  "set [''context'', ''time''] = e_imports twoImportsState \<and>
   set [''time'', ''context''] = e_imports twoImportsState \<and>
   addImports [''context'', ''time''] twoImportsState = Some twoImportsDone \<and>
   addImports [''time'', ''context''] twoImportsDone = Some twoImportsDone \<and>
   fileImports (e_file twoImportsDone) = Some [''context'', ''time'']"
proof -
  have h1: "set [''context'', ''time''] = e_imports twoImportsState"
    by (simp add: twoImportsState_def)
  have h2: "set [''time'', ''context''] = e_imports twoImportsState"
    by (auto simp: twoImportsState_def)
  have h3: "\<forall>imp \<in> e_imports twoImportsState. unquoted imp"
    by (simp add: twoImportsState_def unquoted_def)
  from addImports_idempotent [OF h1 h2 h3 twoImportsDone_eq] h1 h2 twoImportsDone_eq
    twoImportsDone_imports
  show ?thesis by blast
qed

lemma executeSet_context:
  assumes "executeSet st bindings e = (None, e1)"
    and "SetValue st = ExprString str"
    and "SplitN2 (Trim str [CHR 0x22]) (CHR '' '') = [name, typ]"
    and "Contains typ ''context.''"
  shows "''context'' \<in> e_imports e1"
  using assms
  by (auto simp: executeSet_def addImport_def Let_def split: option.splits if_splits prod.splits)

lemma Trim_quote_context: "Trim (quote ''context'') [CHR 0x22] = ''context''"
  by (simp add: Trim_def quote_def)

lemma setFirstBlock_matches: "MatchBlock paramsFile (setFirstBlock spec) = [paramsMatch]"
  by (simp add: matcher_defs setFirstBlock_def paramsFile_def matchParams_def paramsMatch_def
      paramsBindings_def)

lemma ctxSetState_eq:
  "executeSet (setFirst ''ctx context.Context'') paramsBindings (startState paramsFile) =
     (None, ctxSetState)"
  by (simp add: ctxSetState_def)
     (simp add: executor_defs FieldByName_def identNode_def Let_def setFirst_def paramsBindings_def
        paramsFile_def)

lemma ctxSetState_imports: "e_imports ctxSetState = {''context''}"
  by (simp add: ctxSetState_def)
     (simp add: executor_defs FieldByName_def identNode_def Let_def setFirst_def paramsBindings_def
        paramsFile_def)

lemma ctxImportedState_eq: "addImports [''context''] ctxSetState = Some ctxImportedState"
  by (simp add: ctxImportedState_def ctxSetState_def)
     (simp add: executor_defs FieldByName_def identNode_def Let_def setFirst_def paramsBindings_def
        paramsFile_def)

text \<open>
  C6, as amended.  For every \<open>set $X.first = "name type"\<close> statement that executes
  successfully, if the type part contains \<open>context.\<close>, then the package \<open>context\<close> is in
  the executor's import-to-add set afterwards; and since that set only grows, after
  import reconciliation of any later state \<open>context\<close> is among the file's imports.
\<close>

theorem set_first_adds_context_import:
  assumes "executeSet st bindings e = (None, e1)"
    and "SetValue st = ExprString str"
    and "SplitN2 (Trim str [CHR 0x22]) (CHR '' '') = [name, typ]"
    and "Contains typ ''context.''"
    and "e_imports e1 \<subseteq> e_imports e2"
    and "set keys = e_imports e2"
    and "addImports keys e2 = Some e3"
  shows "''context'' \<in> e_imports e1 \<and>
         (\<exists>paths. fileImports (e_file e3) = Some paths \<and> ''context'' \<in> set paths)"
proof -
  have c1: "''context'' \<in> e_imports e1"
    by (rule executeSet_context [OF assms(1-4)])
  with assms(5,6) have k: "''context'' \<in> set keys" and ne: "e_imports e2 \<noteq> {}"
    by auto
  from addImports_Some [OF ne assms(7)] obtain before gd after a' existing where
    pos: "\<forall>d \<in> set before. \<not> isImportDecl d" "isImportDecl (VNode gd)"
    and ex: "existingImports (elems (sliceField gd ''Specs'')) =
             Some (existing @ map (\<lambda>k. Trim (quote k) [CHR 0x22])
                                  (filter (\<lambda>k. k \<notin> set existing) keys))"
    and e3: "e3 = e2\<lparr>e_file := setField ''Decls'' (VSlice (before @ VNode (ensureParens gd) # after))
                                 (e_file e2),
                    e_next := a'\<rparr>"
    by blast
  have f: "fileImports (e_file e3) =
           Some (existing @ map (\<lambda>k. Trim (quote k) [CHR 0x22])
                                (filter (\<lambda>k. k \<notin> set existing) keys))"
    using pos ex by (simp add: fileImports_def e3 elems_def findImportDecl_split)
  have "''context'' \<in> set (existing @ map (\<lambda>k. Trim (quote k) [CHR 0x22])
                                (filter (\<lambda>k. k \<notin> set existing) keys))"
  proof (cases "''context'' \<in> set existing")
    case True
    then show ?thesis by simp
  next
    case False
    with k have "''context'' \<in> set (filter (\<lambda>k. k \<notin> set existing) keys)" by simp
    then have "Trim (quote ''context'') [CHR 0x22] \<in>
               set (map (\<lambda>k. Trim (quote k) [CHR 0x22]) (filter (\<lambda>k. k \<notin> set existing) keys))"
      unfolding set_map by (rule imageI)
    then show ?thesis by (simp only: Trim_quote_context set_append Un_iff simp_thms)
  qed
  with c1 f show ?thesis by blast
qed

theorem set_first_adds_context_import_witness:
  "executeSet (setFirst ''ctx context.Context'') paramsBindings (startState paramsFile) =
     (None, ctxSetState) \<and>
   SetValue (setFirst ''ctx context.Context'') = ExprString (quote ''ctx context.Context'') \<and>
   SplitN2 (Trim (quote ''ctx context.Context'') [CHR 0x22]) (CHR '' '') = [''ctx'', ''context.Context''] \<and>
   Contains ''context.Context'' ''context.'' \<and>
   e_imports ctxSetState \<subseteq> e_imports ctxSetState \<and>
   set [''context''] = e_imports ctxSetState \<and>
   addImports [''context''] ctxSetState = Some ctxImportedState \<and>
   ''context'' \<in> e_imports ctxSetState \<and>
   (\<exists>paths. fileImports (e_file ctxImportedState) = Some paths \<and> ''context'' \<in> set paths)"
proof -
  have h2: "SetValue (setFirst ''ctx context.Context'') = ExprString (quote ''ctx context.Context'')"
    by (simp add: setFirst_def)
  have h3: "SplitN2 (Trim (quote ''ctx context.Context'') [CHR 0x22]) (CHR '' '') =
            [''ctx'', ''context.Context'']"
    by (simp add: Trim_def quote_def SplitN2_def)
  have h4: "Contains ''context.Context'' ''context.''"
    by simp
  have h5: "e_imports ctxSetState \<subseteq> e_imports ctxSetState"
    by simp
  have h6: "set [''context''] = e_imports ctxSetState"
    by (simp add: ctxSetState_imports)
  from set_first_adds_context_import [OF ctxSetState_eq h2 h3 h4 h5 h6 ctxImportedState_eq]
    ctxSetState_eq h2 h3 h4 h5 h6 ctxImportedState_eq
  show ?thesis by blast
qed

text \<open>
  C6 as stated fails for packages other than \<open>context\<close>: \<open>set $P.first = "t time.Time"\<close>
  executes successfully, its type part contains \<open>time.\<close>, and \<open>time\<close> is neither in the
  import-to-add set nor, after the whole run, among the file's imports.
\<close>

theorem set_first_time_counterexample:
  "MatchBlock paramsFile (setFirstBlock ''t time.Time'') = [paramsMatch] \<and>
   Contains ''time.Time'' ''time.'' \<and>
   fst (executeSet (setFirst ''t time.Time'') paramsBindings (startState paramsFile)) = None \<and>
   ''time'' \<notin> e_imports (snd (executeSet (setFirst ''t time.Time'') paramsBindings (startState paramsFile))) \<and>
   fst (Execute testEnv (setFirstBlock ''t time.Time'') [paramsMatch] (startState paramsFile)) =
     Inr \<lparr>ModifiedSource = ''<source>'', EmittedFiles = Map.empty, Applied = [''patch'']\<rparr> \<and>
   fileImports (e_file (snd (Execute testEnv (setFirstBlock ''t time.Time'') [paramsMatch]
                               (startState paramsFile)))) = Some []"
  by (simp add: setFirstBlock_matches)
     (simp add: executor_defs FieldByName_def identNode_def setFirstBlock_def setFirst_def
        paramsMatch_def paramsBindings_def paramsFile_def)

end
